theory Spec2Isabelle
  imports Main "HOL-Library.Sublist" "HOL-Library.List_Lexorder"
begin

section \<open>Python values and exceptions\<close>

text \<open>
  A Python \<open>str\<close> is a sequence of Unicode code points, so it is modelled as a list of
  naturals; \<open>py\<close> embeds an ASCII literal. SQL text is ASCII and is kept as a \<open>string\<close>.
  Exceptions are values of \<open>error\<close>; a function that may raise returns \<open>error + 'a\<close>.
\<close>

type_synonym pystr = "nat list"

definition py :: "string \<Rightarrow> pystr" where
  "py s = map of_char s"

datatype error =
    PoolError string            \<comment> \<open>psycopg2.pool.PoolError\<close>
  | OperationalError            \<comment> \<open>psycopg2.OperationalError: server unreachable or gone\<close>
  | ProgrammingError string     \<comment> \<open>psycopg2.ProgrammingError: undefined table or column, bad arguments\<close>
  | IntegrityError string       \<comment> \<open>psycopg2.IntegrityError: a constraint is violated\<close>
  | DataError string            \<comment> \<open>psycopg2.DataError: a value out of range\<close>
  | IndexError                  \<comment> \<open>fewer arguments than placeholders\<close>
  | AttributeError              \<comment> \<open>a method called on None\<close>
  | OverflowError               \<comment> \<open>datetime arithmetic out of range\<close>
  | PlainException string       \<comment> \<open>raise Exception(msg)\<close>
  | NonException                \<comment> \<open>a BaseException that is no Exception (KeyboardInterrupt, SystemExit)\<close>

fun is_Exception :: "error \<Rightarrow> bool" where
  "is_Exception NonException = False"
| "is_Exception _ = True"

section \<open>The connection pool (db_pool.py)\<close>

subsection \<open>The driver's pool\<close>

text \<open>
  \<open>DatabasePool\<close> wraps \<open>psycopg2.pool.ThreadedConnectionPool\<close>. The driver is not part
  of the repository; its pool is modelled after its documented behaviour: \<open>getconn\<close>
  hands out the idle connection on top of the stack, or establishes a new one while fewer
  than \<open>maxconn\<close> are checked out, and raises \<open>PoolError\<close> otherwise; \<open>putconn\<close>
  rejects a connection the pool did not hand out, keeps a healthy connection while fewer
  than \<open>minconn\<close> are idle (after rolling back an open transaction) and closes it
  otherwise. A rollback is taken to succeed. \<open>getconn\<close> returns a Python value that the
  caller tests for truth, hence the \<open>option\<close>.
\<close>

datatype txn_status = TxIdle | TxInTrans | TxUnknown

record connection =
  conn_id :: nat
  closed :: bool
  txn :: txn_status

text \<open>
  The pool keeps, as a ghost field, the trace of the calls that succeeded: the
  connections it handed out and took back, in order.
\<close>

datatype pool_event = Checkout nat | Return nat

record pool =
  minconn :: nat
  maxconn :: nat
  idle :: "connection list"
  used :: "connection list"
  pool_closed :: bool
  next_id :: nat
  trace :: "pool_event list"

definition keyed :: "pool \<Rightarrow> connection \<Rightarrow> bool" where
  "keyed p c = (conn_id c \<in> set (map conn_id (used p)))"

definition getconn :: "bool \<Rightarrow> pool \<Rightarrow> (error + connection option) \<times> pool" where
  "getconn up p =
    (if pool_closed p then (Inl (PoolError ''connection pool is closed''), p)
     else if idle p \<noteq> [] then
       (Inr (Some (last (idle p))),
        p\<lparr>idle := butlast (idle p), used := used p @ [last (idle p)],
          trace := trace p @ [Checkout (conn_id (last (idle p)))]\<rparr>)
     else if length (used p) = maxconn p then
       (Inl (PoolError ''connection pool exhausted''), p)
     else if \<not> up then (Inl OperationalError, p)
     else
       (Inr (Some \<lparr>conn_id = next_id p, closed = False, txn = TxIdle\<rparr>),
        p\<lparr>used := used p @ [\<lparr>conn_id = next_id p, closed = False, txn = TxIdle\<rparr>],
          next_id := Suc (next_id p),
          trace := trace p @ [Checkout (next_id p)]\<rparr>))"

definition keep_idle :: "pool \<Rightarrow> connection \<Rightarrow> bool \<Rightarrow> connection list" where
  "keep_idle p c close =
    (if length (idle p) < minconn p \<and> \<not> close then
       (if \<not> closed c then
          (case txn c of
             TxUnknown \<Rightarrow> idle p
           | TxInTrans \<Rightarrow> idle p @ [c\<lparr>txn := TxIdle\<rparr>]
           | TxIdle \<Rightarrow> idle p @ [c])
        else idle p)
     else idle p)"

definition putconn :: "pool \<Rightarrow> connection \<Rightarrow> bool \<Rightarrow> (error + unit) \<times> pool" where
  "putconn p c close =
    (if pool_closed p then (Inl (PoolError ''connection pool is closed''), p)
     else if \<not> keyed p c then (Inl (PoolError ''trying to put unkeyed connection''), p)
     else
       (Inr (),
        p\<lparr>idle := keep_idle p c close,
          used := filter (\<lambda>u. conn_id u \<noteq> conn_id c) (used p),
          trace := trace p @ [Return (conn_id c)]\<rparr>))"

subsection \<open>DatabasePool.get_connection\<close>

record pool_stats =
  total_connections :: int
  active_connections :: int
  failed_connections :: int
  pool_exhausted :: int

record database_pool =
  inner :: pool
  stats :: pool_stats

text \<open>
  Both handlers (\<open>except pool.PoolError\<close> and \<open>except Exception\<close>) count a failed
  connection and re-raise; an exception outside \<open>Exception\<close> passes them.
\<close>

definition on_except :: "error \<Rightarrow> database_pool \<Rightarrow> database_pool" where
  "on_except e self =
    (if is_Exception e
     then self\<lparr>stats := (stats self)\<lparr>failed_connections := failed_connections (stats self) + 1\<rparr>\<rparr>
     else self)"

text \<open>The \<open>finally\<close> clause: \<open>if conn: putconn(conn); active_connections -= 1\<close>, an error of
  \<open>putconn\<close> being logged and dropped.\<close>

definition release :: "database_pool \<Rightarrow> connection option \<Rightarrow> database_pool" where
  "release self conn =
    (case conn of
       None \<Rightarrow> self
     | Some c \<Rightarrow>
        (case putconn (inner self) c False of
           (Inr u, p') \<Rightarrow>
             self\<lparr>inner := p',
               stats := (stats self)\<lparr>active_connections := active_connections (stats self) - 1\<rparr>\<rparr>
         | (Inl e, p') \<Rightarrow> self\<lparr>inner := p'\<rparr>))"

text \<open>
  The caller's block receives the yielded value and ends by returning or raising; it
  may leave the connection closed or inside a transaction. The connection object keeps
  its identity.
\<close>

type_synonym 'a block = "connection option \<Rightarrow> (error + 'a) \<times> bool \<times> txn_status"

definition after_block :: "connection option \<Rightarrow> bool \<times> txn_status \<Rightarrow> connection option" where
  "after_block conn s = map_option (\<lambda>c. c\<lparr>closed := fst s, txn := snd s\<rparr>) conn"

definition count_active :: "database_pool \<Rightarrow> database_pool" where
  "count_active self =
    self\<lparr>stats := (stats self)\<lparr>active_connections := active_connections (stats self) + 1\<rparr>\<rparr>"

text \<open>From \<open>active_connections += 1; yield conn\<close> to the end of the generator.\<close>

definition yield_conn ::
  "'a block \<Rightarrow> database_pool \<Rightarrow> connection option \<Rightarrow> (error + 'a) \<times> database_pool" where
  "yield_conn body self conn =
    (case body conn of
       (Inl e, s) \<Rightarrow> (Inl e, release (on_except e (count_active self)) (after_block conn s))
     | (Inr v, s) \<Rightarrow> (Inr v, release (count_active self) (after_block conn s)))"

text \<open>An exception before the \<open>yield\<close>: the handler, then the \<open>finally\<close> clause on whatever
  \<open>conn\<close> holds at that point.\<close>

definition fail_before_yield ::
  "error \<Rightarrow> database_pool \<Rightarrow> connection option \<Rightarrow> (error + 'a) \<times> database_pool" where
  "fail_before_yield e self conn = (Inl e, release (on_except e self) conn)"

definition count_exhausted :: "database_pool \<Rightarrow> database_pool" where
  "count_exhausted self =
    self\<lparr>stats := (stats self)\<lparr>pool_exhausted := pool_exhausted (stats self) + 1\<rparr>\<rparr>"

definition get_connection ::
  "bool \<Rightarrow> 'a block \<Rightarrow> database_pool \<Rightarrow> (error + 'a) \<times> database_pool" where
  "get_connection up body self =
    (case getconn up (inner self) of
       (Inl e, p1) \<Rightarrow> fail_before_yield e (self\<lparr>inner := p1\<rparr>) None
     | (Inr None, p1) \<Rightarrow>
         fail_before_yield (PlainException ''Pool exhausted: no available connections'')
           (count_exhausted (self\<lparr>inner := p1\<rparr>)) None
     | (Inr (Some c), p1) \<Rightarrow>
         (if closed c then
            (case putconn p1 c True of
               (Inl e, p2) \<Rightarrow> fail_before_yield e (self\<lparr>inner := p2\<rparr>) (Some c)
             | (Inr u, p2) \<Rightarrow>
                 (case getconn up p2 of
                    (Inl e, p3) \<Rightarrow> fail_before_yield e (self\<lparr>inner := p3\<rparr>) (Some c)
                  | (Inr conn2, p3) \<Rightarrow> yield_conn body (self\<lparr>inner := p3\<rparr>) conn2))
          else yield_conn body (self\<lparr>inner := p1\<rparr>) (Some c)))"

subsection \<open>Well-formed pools, traces and repeated cycles\<close>

definition pool_inv :: "pool \<Rightarrow> bool" where
  "pool_inv p =
    (distinct (map conn_id (idle p @ used p)) \<and>
     list_all (\<lambda>c. conn_id c < next_id p) (idle p @ used p))"

fun event_id :: "pool_event \<Rightarrow> nat" where
  "event_id (Checkout i) = i"
| "event_id (Return i) = i"

definition returned_once :: "pool_event list \<Rightarrow> bool" where
  "returned_once ev =
    list_all (\<lambda>e. count_list ev (Checkout (event_id e)) = 1 \<and>
                   count_list ev (Return (event_id e)) = 1) ev"

definition healthy :: "'a block \<Rightarrow> bool" where
  "healthy body = (\<forall>conn. \<not> fst (snd (body conn)) \<and> snd (snd (body conn)) \<noteq> TxUnknown)"

fun cycles :: "bool \<Rightarrow> 'a block list \<Rightarrow> database_pool \<Rightarrow> database_pool" where
  "cycles up [] self = self"
| "cycles up (b # bs) self = cycles up bs (snd (get_connection up b self))"


subsection \<open>Example pools and blocks\<close>

definition conn0 :: connection where
  "conn0 = \<lparr>conn_id = 0, closed = False, txn = TxIdle\<rparr>"

definition zero_stats :: pool_stats where
  "zero_stats = \<lparr>total_connections = 0, active_connections = 0, failed_connections = 0,
     pool_exhausted = 0\<rparr>"

definition fresh_pool :: database_pool where
  "fresh_pool =
    \<lparr>inner = \<lparr>minconn = 1, maxconn = 2, idle = [conn0], used = [], pool_closed = False,
              next_id = 1, trace = []\<rparr>,
     stats = zero_stats\<rparr>"

definition exhausted_pool :: database_pool where
  "exhausted_pool =
    \<lparr>inner = \<lparr>minconn = 1, maxconn = 1, idle = [], used = [conn0], pool_closed = False,
              next_id = 1, trace = [Checkout 0]\<rparr>,
     stats = zero_stats\<lparr>active_connections := 1\<rparr>\<rparr>"

definition block_ok :: "unit block" where
  "block_ok conn = (Inr (), False, TxInTrans)"

definition block_raises :: "unit block" where
  "block_raises conn = (Inl (ProgrammingError ''syntax error''), False, TxInTrans)"

definition block_breaks :: "unit block" where
  "block_breaks conn = (Inl OperationalError, True, TxUnknown)"

section \<open>Python helpers\<close>

text \<open>\<open>if s:\<close> for a value that is a string or None.\<close>

definition truthy :: "pystr option \<Rightarrow> bool" where
  "truthy s = (case s of None \<Rightarrow> False | Some t \<Rightarrow> t \<noteq> [])"

text \<open>\<open>str.lower\<close>, on the letters that matter when the result is compared with an ASCII word.\<close>

definition ascii_lower :: "nat \<Rightarrow> nat" where
  "ascii_lower c = (if 65 \<le> c \<and> c \<le> 90 then c + 32 else c)"

text \<open>\<open>str.split(sep)\<close> for a one-character separator, \<open>str.strip()\<close> and \<open>sep.join\<close>.\<close>

fun split_on :: "nat \<Rightarrow> pystr \<Rightarrow> pystr list" where
  "split_on sep [] = [[]]"
| "split_on sep (c # cs) =
     (if c = sep then [] # split_on sep cs
      else (case split_on sep cs of [] \<Rightarrow> [[c]] | x # xs \<Rightarrow> (c # x) # xs))"

definition is_space :: "nat \<Rightarrow> bool" where
  "is_space c =
    (c \<in> {9, 10, 11, 12, 13, 28, 29, 30, 31, 32, 133, 160, 5760, 8232, 8233, 8239, 8287, 12288}
     \<or> (8192 \<le> c \<and> c \<le> 8202))"

definition strip :: "pystr \<Rightarrow> pystr" where
  "strip s = rev (dropWhile is_space (rev (dropWhile is_space s)))"

fun join :: "string \<Rightarrow> string list \<Rightarrow> string" where
  "join sep [] = []"
| "join sep [x] = x"
| "join sep (x # y # ys) = x @ sep @ join sep (y # ys)"

text \<open>\<open>[e.strip() for e in s.split(',') if e.strip()]\<close>\<close>

definition comma_list :: "pystr \<Rightarrow> pystr list" where
  "comma_list s = filter (\<lambda>e. e \<noteq> []) (map strip (split_on 44 s))"

text \<open>An integer inside an f-string.\<close>

fun show_nat :: "nat \<Rightarrow> string" where
  "show_nat n =
     (if n < 10 then [char_of (48 + n)] else show_nat (n div 10) @ [char_of (48 + n mod 10)])"

definition show_int :: "int \<Rightarrow> string" where
  "show_int i = (if i < 0 then CHR ''-'' # show_nat (nat (- i)) else show_nat (nat i))"

text \<open>
  \<open>datetime + timedelta(days=d)\<close>, with a datetime as its microseconds since 0001-01-01:
  the number of days and the result must be in range.
\<close>

definition max_datetime :: int where
  "max_datetime = 3652059 * 86400000000"

definition add_days :: "int \<Rightarrow> int \<Rightarrow> error + int" where
  "add_days t d =
    (if d < - 999999999 \<or> 999999999 < d then Inl OverflowError
     else if t + d * 86400000000 < 0 \<or> max_datetime \<le> t + d * 86400000000 then Inl OverflowError
     else Inr (t + d * 86400000000))"

text \<open>The values \<open>execute\<close> is given as arguments.\<close>

datatype pyval = PNone | PInt int | PStr pystr | PTime int

definition opt_str :: "pystr option \<Rightarrow> pyval" where
  "opt_str s = (case s of None \<Rightarrow> PNone | Some t \<Rightarrow> PStr t)"

definition opt_time :: "int option \<Rightarrow> pyval" where
  "opt_time s = (case s of None \<Rightarrow> PNone | Some t \<Rightarrow> PTime t)"

definition opt_int :: "int option \<Rightarrow> pyval" where
  "opt_int s = (case s of None \<Rightarrow> PNone | Some t \<Rightarrow> PInt t)"

section \<open>The statements sent to the store\<close>

subsection \<open>Composing the statistics filter (admin_db.py)\<close>

text \<open>
  The conditions \<open>get_statistics_with_filters\<close> and \<open>get_statistics_count\<close> append, each
  with the text it contributes; \<open>UserIn n\<close> stands for \<open>user_email IN (%s,...,%s)\<close> with \<open>n\<close>
  placeholders.
\<close>

datatype cond = ActionTypeEq | UserIsNull | UserActive | UserIn nat | UserEq

definition quote :: string where
  "quote = [CHR 0x27]"

fun cond_sql :: "cond \<Rightarrow> string" where
  "cond_sql ActionTypeEq = ''action_type = %s''"
| "cond_sql UserIsNull = ''user_email IS NULL''"
| "cond_sql UserActive =
     ''user_email IS NOT NULL AND user_email NOT LIKE '' @ quote @ ''%example.com%'' @ quote @
     '' AND LOWER(user_email) NOT LIKE '' @ quote @ ''%admin%'' @ quote"
| "cond_sql (UserIn n) = ''user_email IN ('' @ join '','' (replicate n ''%s'') @ '')''"
| "cond_sql UserEq = ''user_email = %s''"

text \<open>The word for anonymous users, \<open>'Gost'\<close> in Cyrillic (U+0413 U+043E U+0441 U+0442 U+044C).\<close>

definition guest :: pystr where
  "guest = [1043, 1086, 1089, 1090, 1100]"

definition user_conditions :: "pystr \<Rightarrow> cond list \<times> pyval list" where
  "user_conditions u =
    (if u = guest then ([UserIsNull], [])
     else if u = py ''ACTIVE_USERS'' then ([UserActive], [])
     else if take 12 u = py ''CUSTOM_LIST:'' then
       (if comma_list (drop 12 u) \<noteq> []
        then ([UserIn (length (comma_list (drop 12 u)))], map PStr (comma_list (drop 12 u)))
        else ([], []))
     else ([UserEq], [PStr u]))"

definition filter_conditions :: "pystr option \<Rightarrow> pystr option \<Rightarrow> cond list \<times> pyval list" where
  "filter_conditions action_type user_email =
    (case (if truthy action_type then ([ActionTypeEq], [opt_str action_type]) else ([], [])) of
       (c1, p1) \<Rightarrow>
         (case (case user_email of
                  None \<Rightarrow> ([], [])
                | Some u \<Rightarrow> if u = [] then ([], []) else user_conditions u) of
            (c2, p2) \<Rightarrow> (c1 @ c2, p1 @ p2)))"

definition where_clause :: "cond list \<Rightarrow> string" where
  "where_clause conds =
    (if conds = [] then [] else '' WHERE '' @ join '' AND '' (map cond_sql conds))"

subsection \<open>get_images_list: the validated sort column\<close>

definition sort_column :: "pystr \<Rightarrow> string" where
  "sort_column sort_by =
    (if sort_by = py ''id'' then ''id''
     else if sort_by = py ''filename'' then ''filename''
     else if sort_by = py ''size'' then ''size''
     else ''upload_time'')"

subsection \<open>Requests\<close>

text \<open>
  A request is one call of \<open>cursor.execute\<close>: which statement, with the values the
  calling function holds. \<open>sql_text\<close> is the query text of the call and \<open>sql_args\<close> its
  argument sequence (\<open>None\<close> where \<open>execute\<close> is called with the text alone). Texts are the
  source's, with runs of white space collapsed; the catalogue queries and the CREATE and
  ALTER statements, which take no value at all, are abbreviated. \<open>DeleteUser\<close> is issued
  by no function of the repository: it is the event the ownership rule speaks of.
\<close>

datatype request =
    TableExists string
  | ColumnExists string string
  | CreateTableUsers
  | CreateTableImages
  | CreateTableStatistics
  | AlterImagesAddUserEmail
  | AlterImagesAddUserEmailFk
  | AlterImagesAddExpirationDate
  | SelectUser pystr
  | InsertUser pystr pystr
  | InsertAdmin pystr pystr
  | DeleteUser pystr
  | InsertImage pystr pystr int int pystr "pystr option" "int option"
  | SelectImagesPage int int pystr
  | CountImages
  | SelectImage int
  | DeleteImage int
  | SelectUserImages pystr int int
  | SelectExpiredImages int
  | SelectStatistics "pystr option" "pystr option" int int
  | CountStatistics "pystr option" "pystr option"
  | InsertStatistics pystr "pystr option" "int option" "pystr option" "pystr option" "pystr option"

fun sql_text :: "request \<Rightarrow> string" where
  "sql_text (TableExists n) =
     ''SELECT EXISTS (SELECT FROM information_schema.tables WHERE table_name = ...)''"
| "sql_text (ColumnExists n c) =
     ''SELECT EXISTS (SELECT FROM information_schema.columns WHERE column_name = ...)''"
| "sql_text CreateTableUsers = ''CREATE TABLE IF NOT EXISTS users (...)''"
| "sql_text CreateTableImages = ''CREATE TABLE IF NOT EXISTS images (...)''"
| "sql_text CreateTableStatistics = ''CREATE TABLE IF NOT EXISTS statistics (...)''"
| "sql_text AlterImagesAddUserEmail = ''ALTER TABLE images ADD COLUMN user_email TEXT''"
| "sql_text AlterImagesAddUserEmailFk =
     ''ALTER TABLE images ADD CONSTRAINT fk_images_user_email FOREIGN KEY (user_email) '' @
     ''REFERENCES users(email) ON DELETE SET NULL''"
| "sql_text AlterImagesAddExpirationDate =
     ''ALTER TABLE images ADD COLUMN expiration_date TIMESTAMP''"
| "sql_text (SelectUser email) = ''SELECT email FROM users WHERE email = %s''"
| "sql_text (InsertUser email password_hash) =
     ''INSERT INTO users (email, password_hash) VALUES (%s, %s)''"
| "sql_text (InsertAdmin email password_hash) =
     ''INSERT INTO users (email, password_hash, created_at) VALUES (%s, %s, NOW())''"
| "sql_text (DeleteUser email) = ''DELETE FROM users WHERE email = %s''"
| "sql_text (InsertImage filename original_name size' upload_time file_type user_email
       expiration_date) =
     ''INSERT INTO images (filename, original_name, size, upload_time, file_type, '' @
     ''user_email, expiration_date) VALUES (%s, %s, %s, %s, %s, %s, %s)''"
| "sql_text (SelectImagesPage page per_page sort_by) =
     ''SELECT * FROM images ORDER BY '' @ sort_column sort_by @ '' DESC LIMIT '' @
     show_int per_page @ '' OFFSET '' @ show_int ((page - 1) * per_page)"
| "sql_text CountImages = ''SELECT COUNT(*) FROM images''"
| "sql_text (SelectImage image_id) = ''SELECT * FROM images WHERE id = %s''"
| "sql_text (DeleteImage image_id) = ''DELETE FROM images WHERE id = %s''"
| "sql_text (SelectUserImages email per_page offset) =
     ''SELECT * FROM images WHERE user_email = %s ORDER BY upload_time DESC '' @
     ''LIMIT %s OFFSET %s''"
| "sql_text (SelectExpiredImages now) =
     ''SELECT * FROM images WHERE expiration_date IS NOT NULL AND expiration_date < %s''"
| "sql_text (SelectStatistics action_type user_email limit offset) =
     ''SELECT action_type, user_email, ip_address, timestamp, additional_info FROM statistics'' @
     where_clause (fst (filter_conditions action_type user_email)) @
     '' ORDER BY timestamp DESC LIMIT %s OFFSET %s''"
| "sql_text (CountStatistics action_type user_email) =
     ''SELECT COUNT(*) FROM statistics'' @
     where_clause (fst (filter_conditions action_type user_email))"
| "sql_text (InsertStatistics action_type user_email file_id ip_address user_agent
       additional_info) =
     ''INSERT INTO statistics (action_type, user_email, file_id, ip_address, user_agent, '' @
     ''additional_info) VALUES (%s, %s, %s, %s, %s, %s)''"

fun sql_args :: "request \<Rightarrow> pyval list option" where
  "sql_args (SelectUser email) = Some [PStr email]"
| "sql_args (InsertUser email password_hash) = Some [PStr email, PStr password_hash]"
| "sql_args (InsertAdmin email password_hash) = Some [PStr email, PStr password_hash]"
| "sql_args (DeleteUser email) = Some [PStr email]"
| "sql_args (InsertImage filename original_name size' upload_time file_type user_email
       expiration_date) =
     Some [PStr filename, PStr original_name, PInt size', PTime upload_time, PStr file_type,
           opt_str user_email, opt_time expiration_date]"
| "sql_args (SelectImage image_id) = Some [PInt image_id]"
| "sql_args (DeleteImage image_id) = Some [PInt image_id]"
| "sql_args (SelectUserImages email per_page offset) =
     Some [PStr email, PInt per_page, PInt offset]"
| "sql_args (SelectExpiredImages now) = Some [PTime now]"
| "sql_args (SelectStatistics action_type user_email limit offset) =
     Some (snd (filter_conditions action_type user_email) @ [PInt limit, PInt offset])"
| "sql_args (CountStatistics action_type user_email) =
     Some (snd (filter_conditions action_type user_email))"
| "sql_args (InsertStatistics action_type user_email file_id ip_address user_agent
       additional_info) =
     Some [PStr action_type, opt_str user_email, opt_int file_id, opt_str ip_address,
           opt_str user_agent, opt_str additional_info]"
| "sql_args r = None"

subsection \<open>Client side: argument binding of cursor.execute\<close>

text \<open>
  When \<open>execute\<close> is given an argument sequence (an empty one included), psycopg2 reads
  every \<open>%\<close> of the query as the start of a conversion: \<open>%%\<close> is a literal percent sign,
  anything else takes the next argument, and only \<open>%s\<close> formats. \<open>conversions\<close> lists the
  characters that follow the single percent signs (code 0 when the text ends on one).
  Fewer arguments than conversions raise \<open>IndexError\<close>; a conversion other than \<open>%s\<close>, or
  arguments left over, raise as well. Without an argument sequence the text is sent as
  it is.
\<close>

fun conversions :: "string \<Rightarrow> string" where
  "conversions [] = []"
| "conversions [c] = (if c = CHR ''%'' then [CHR 0x00] else [])"
| "conversions (c # d # cs) =
     (if c \<noteq> CHR ''%'' then conversions (d # cs)
      else if d = CHR ''%'' then conversions cs
      else d # conversions cs)"

definition bind :: "string \<Rightarrow> pyval list option \<Rightarrow> error + unit" where
  "bind query args =
    (case args of
       None \<Rightarrow> Inr ()
     | Some vs \<Rightarrow>
        (if length vs < length (conversions query) then Inl IndexError
         else if list_ex (\<lambda>c. c \<noteq> CHR ''s'') (conversions query)
           then Inl (ProgrammingError ''unsupported format character'')
         else if length (conversions query) < length vs
           then Inl (ProgrammingError ''not all arguments converted'')
         else Inr ()))"

subsection \<open>What a query text may depend on\<close>

text \<open>
  The statement a request stands for, with every value the caller supplied taken away.
  For the two statistics queries what stays is whether an action type is given and the
  form of the user filter: none, the guest word, \<open>ACTIVE_USERS\<close>, a \<open>CUSTOM_LIST:\<close> with
  its number of entries, or an email.
\<close>

datatype user_form = NoUser | GuestUser | ActiveUsers | ListOf nat | ExactUser

definition form_of :: "pystr option \<Rightarrow> user_form" where
  "form_of user_email =
    (case user_email of
       None \<Rightarrow> NoUser
     | Some u \<Rightarrow>
        (if u = [] then NoUser
         else if u = guest then GuestUser
         else if u = py ''ACTIVE_USERS'' then ActiveUsers
         else if take 12 u = py ''CUSTOM_LIST:'' then ListOf (length (comma_list (drop 12 u)))
         else ExactUser))"

datatype statement =
    CatalogueTable
  | CatalogueColumn
  | CreateUsers
  | CreateImages
  | CreateStatistics
  | AddUserEmail
  | AddUserEmailFk
  | AddExpirationDate
  | UserByEmail
  | NewUser
  | NewAdmin
  | RemoveUser
  | NewImage
  | ImagesPage
  | ImagesCount
  | ImageById
  | RemoveImage
  | ImagesOfUser
  | ExpiredImages
  | StatisticsPage bool user_form
  | StatisticsCount bool user_form
  | NewStatistics

fun statement_of :: "request \<Rightarrow> statement" where
  "statement_of (TableExists n) = CatalogueTable"
| "statement_of (ColumnExists n c) = CatalogueColumn"
| "statement_of CreateTableUsers = CreateUsers"
| "statement_of CreateTableImages = CreateImages"
| "statement_of CreateTableStatistics = CreateStatistics"
| "statement_of AlterImagesAddUserEmail = AddUserEmail"
| "statement_of AlterImagesAddUserEmailFk = AddUserEmailFk"
| "statement_of AlterImagesAddExpirationDate = AddExpirationDate"
| "statement_of (SelectUser email) = UserByEmail"
| "statement_of (InsertUser email password_hash) = NewUser"
| "statement_of (InsertAdmin email password_hash) = NewAdmin"
| "statement_of (DeleteUser email) = RemoveUser"
| "statement_of (InsertImage filename original_name size' upload_time file_type user_email
       expiration_date) = NewImage"
| "statement_of (SelectImagesPage page per_page sort_by) = ImagesPage"
| "statement_of CountImages = ImagesCount"
| "statement_of (SelectImage image_id) = ImageById"
| "statement_of (DeleteImage image_id) = RemoveImage"
| "statement_of (SelectUserImages email per_page offset) = ImagesOfUser"
| "statement_of (SelectExpiredImages now) = ExpiredImages"
| "statement_of (SelectStatistics action_type user_email limit offset) =
     StatisticsPage (truthy action_type) (form_of user_email)"
| "statement_of (CountStatistics action_type user_email) =
     StatisticsCount (truthy action_type) (form_of user_email)"
| "statement_of (InsertStatistics action_type user_email file_id ip_address user_agent
       additional_info) = NewStatistics"

text \<open>The values a request carries: those the calling function was handed.\<close>

fun carries_values :: "statement \<Rightarrow> bool" where
  "carries_values CatalogueTable = False"
| "carries_values CatalogueColumn = False"
| "carries_values CreateUsers = False"
| "carries_values CreateImages = False"
| "carries_values CreateStatistics = False"
| "carries_values AddUserEmail = False"
| "carries_values AddUserEmailFk = False"
| "carries_values AddExpirationDate = False"
| "carries_values ImagesCount = False"
| "carries_values s = True"

text \<open>The number of entries of the list in a statistics query, 0 elsewhere.\<close>

fun entries :: "statement \<Rightarrow> nat" where
  "entries (StatisticsPage a (ListOf n)) = n"
| "entries (StatisticsCount a (ListOf n)) = n"
| "entries s = 0"

section \<open>The relational store\<close>

text \<open>
  db.py and admin_db.py talk to PostgreSQL through psycopg2. The store is modelled as the
  state the statements of the repository read and write: for each of the three tables its
  definition (columns and foreign keys, absent when the table does not exist) and its
  rows, the two serial counters, and, as a ghost field, the journal of the
  CREATE, ALTER and INSERT statements that were carried out. A column a table does not
  have holds no value in its rows.
\<close>

datatype on_delete = Cascade | SetNull | NoAction

record foreign_key =
  fk_name :: string
  fk_column :: string
  fk_table :: string
  fk_ref :: string
  fk_on_delete :: on_delete

record table_def =
  columns :: "(string \<times> string) list"
  foreign_keys :: "foreign_key list"

record user_row =
  usr_email :: pystr
  usr_password_hash :: pystr
  usr_created_at :: "int option"

record image_row =
  image_id :: int
  image_filename :: pystr
  image_original_name :: pystr
  image_size :: int
  image_upload_time :: "int option"
  image_file_type :: pystr
  image_user_email :: "pystr option"
  image_expiration_date :: "int option"

record stat_row =
  stat_id :: int
  stat_action_type :: pystr
  stat_user_email :: "pystr option"
  stat_file_id :: "int option"
  stat_ip_address :: "pystr option"
  stat_user_agent :: "pystr option"
  stat_additional_info :: "pystr option"
  stat_timestamp :: int

record database =
  users_def :: "table_def option"
  images_def :: "table_def option"
  statistics_def :: "table_def option"
  users :: "user_row list"
  images :: "image_row list"
  statistics :: "stat_row list"
  images_seq :: int
  statistics_seq :: int
  journal :: "request list"

text \<open>
  What a call finds around it: the committed store, whether \<open>psycopg2.connect\<close> succeeds,
  whether the server answers the statements sent to it, the client's clock
  (\<open>datetime.now()\<close>, in microseconds since 0001-01-01), the server's clock
  (\<open>CURRENT_TIMESTAMP\<close>), the digest \<open>sha256(s.encode()).hexdigest()\<close>, which
  strings the server reads as an INET address, and the environment variables the
  functions read.
\<close>

record world =
  db :: database
  reachable :: bool
  alive :: bool
  now :: int
  db_now :: int
  digest :: "pystr \<Rightarrow> pystr"
  parses_inet :: "pystr \<Rightarrow> bool"
  env_create_admin_user :: "pystr option"
  env_admin_email :: "pystr option"
  env_admin_emails :: "pystr option"
  env_admin_password :: "pystr option"

subsection \<open>Sending a request\<close>

text \<open>
  \<open>cursor.execute\<close>: the request reaches the server when the server is alive and the
  arguments bind; \<open>run\<close> is what the server then does with it.
\<close>

definition execute :: "world \<Rightarrow> request \<Rightarrow> (error + 'a) \<Rightarrow> error + 'a" where
  "execute w r run =
    (if \<not> alive w then Inl OperationalError
     else (case bind (sql_text r) (sql_args r) of Inl e \<Rightarrow> Inl e | Inr u \<Rightarrow> run))"

subsection \<open>Server side: tables, columns and foreign keys\<close>

definition has_column :: "table_def \<Rightarrow> string \<Rightarrow> bool" where
  "has_column t c = (c \<in> set (map fst (columns t)))"

text \<open>A statement that names columns of a table needs the table and each of the columns.\<close>

definition relation :: "table_def option \<Rightarrow> string list \<Rightarrow> error + table_def" where
  "relation t cols =
    (case t of
       None \<Rightarrow> Inl (ProgrammingError ''relation does not exist'')
     | Some td \<Rightarrow>
        (if list_all (has_column td) cols then Inr td
         else Inl (ProgrammingError ''column does not exist'')))"

text \<open>The three tables as db.py creates them (\<open>create_table_users\<close>, \<open>create_table_images\<close>,
  \<open>create_table_statistics\<close>); an unnamed foreign key gets the server's default name.\<close>

definition users_table :: table_def where
  "users_table =
    \<lparr>columns = [(''email'', ''TEXT''), (''password_hash'', ''TEXT''), (''created_at'', ''TIMESTAMP'')],
     foreign_keys = []\<rparr>"

definition images_user_fk :: foreign_key where
  "images_user_fk =
    \<lparr>fk_name = ''images_user_email_fkey'', fk_column = ''user_email'', fk_table = ''users'',
     fk_ref = ''email'', fk_on_delete = Cascade\<rparr>"

definition images_table :: table_def where
  "images_table =
    \<lparr>columns = [(''id'', ''SERIAL''), (''filename'', ''TEXT''), (''original_name'', ''TEXT''),
       (''size'', ''INTEGER''), (''upload_time'', ''TIMESTAMP''), (''file_type'', ''TEXT''),
       (''user_email'', ''TEXT''), (''expiration_date'', ''TIMESTAMP'')],
     foreign_keys = [images_user_fk]\<rparr>"

definition statistics_table :: table_def where
  "statistics_table =
    \<lparr>columns = [(''id'', ''SERIAL''), (''action_type'', ''VARCHAR(50)''),
       (''user_email'', ''VARCHAR(255)''), (''file_id'', ''INTEGER''), (''ip_address'', ''INET''),
       (''user_agent'', ''TEXT''), (''additional_info'', ''TEXT''), (''timestamp'', ''TIMESTAMP'')],
     foreign_keys = []\<rparr>"

text \<open>The constraint \<open>ensure_schema\<close> adds to a table that had no \<open>user_email\<close> column.\<close>

definition fk_images_user_email :: foreign_key where
  "fk_images_user_email =
    \<lparr>fk_name = ''fk_images_user_email'', fk_column = ''user_email'', fk_table = ''users'',
     fk_ref = ''email'', fk_on_delete = SetNull\<rparr>"

text \<open>A foreign key can be declared when the table it references exists and has the
  referenced column.\<close>

definition lookup_table :: "database \<Rightarrow> string \<Rightarrow> table_def option" where
  "lookup_table d n =
    (if n = ''users'' then users_def d
     else if n = ''images'' then images_def d
     else if n = ''statistics'' then statistics_def d
     else None)"

definition fk_target_ok :: "database \<Rightarrow> foreign_key \<Rightarrow> bool" where
  "fk_target_ok d k =
    (case lookup_table d (fk_table k) of None \<Rightarrow> False | Some t \<Rightarrow> has_column t (fk_ref k))"

definition sql_create_users :: "world \<Rightarrow> database \<Rightarrow> error + database" where
  "sql_create_users w d =
    execute w CreateTableUsers
      (Inr (case users_def d of
              None \<Rightarrow> d\<lparr>users_def := Some users_table, users := [],
                          journal := journal d @ [CreateTableUsers]\<rparr>
            | Some t \<Rightarrow> d\<lparr>journal := journal d @ [CreateTableUsers]\<rparr>))"

definition sql_create_images :: "world \<Rightarrow> database \<Rightarrow> error + database" where
  "sql_create_images w d =
    execute w CreateTableImages
      (case images_def d of
         None \<Rightarrow>
           (if fk_target_ok d images_user_fk
            then Inr (d\<lparr>images_def := Some images_table, images := [], images_seq := 1,
                        journal := journal d @ [CreateTableImages]\<rparr>)
            else Inl (ProgrammingError ''relation does not exist''))
       | Some t \<Rightarrow> Inr (d\<lparr>journal := journal d @ [CreateTableImages]\<rparr>))"

definition sql_create_statistics :: "world \<Rightarrow> database \<Rightarrow> error + database" where
  "sql_create_statistics w d =
    execute w CreateTableStatistics
      (Inr (case statistics_def d of
              None \<Rightarrow> d\<lparr>statistics_def := Some statistics_table, statistics := [],
                          statistics_seq := 1,
                          journal := journal d @ [CreateTableStatistics]\<rparr>
            | Some t \<Rightarrow> d\<lparr>journal := journal d @ [CreateTableStatistics]\<rparr>))"

text \<open>\<open>ALTER TABLE images ADD COLUMN\<close>: the new column is NULL in every row.\<close>

definition sql_add_user_email :: "world \<Rightarrow> database \<Rightarrow> error + database" where
  "sql_add_user_email w d =
    execute w AlterImagesAddUserEmail
      (case images_def d of
         None \<Rightarrow> Inl (ProgrammingError ''relation does not exist'')
       | Some t \<Rightarrow>
          (if has_column t ''user_email'' then Inl (ProgrammingError ''column already exists'')
           else Inr (d\<lparr>images_def := Some (t\<lparr>columns := columns t @ [(''user_email'', ''TEXT'')]\<rparr>),
                       images := map (\<lambda>r. r\<lparr>image_user_email := None\<rparr>) (images d),
                       journal := journal d @ [AlterImagesAddUserEmail]\<rparr>)))"

definition sql_add_expiration_date :: "world \<Rightarrow> database \<Rightarrow> error + database" where
  "sql_add_expiration_date w d =
    execute w AlterImagesAddExpirationDate
      (case images_def d of
         None \<Rightarrow> Inl (ProgrammingError ''relation does not exist'')
       | Some t \<Rightarrow>
          (if has_column t ''expiration_date'' then Inl (ProgrammingError ''column already exists'')
           else Inr (d\<lparr>images_def :=
                         Some (t\<lparr>columns := columns t @ [(''expiration_date'', ''TIMESTAMP'')]\<rparr>),
                       images := map (\<lambda>r. r\<lparr>image_expiration_date := None\<rparr>) (images d),
                       journal := journal d @ [AlterImagesAddExpirationDate]\<rparr>)))"

text \<open>\<open>ALTER TABLE images ADD CONSTRAINT fk_images_user_email ... ON DELETE SET NULL\<close>: the
  name must be new, the column and the referenced table must exist, and every owner
  already stored must be a user.\<close>

definition user_exists :: "database \<Rightarrow> pystr \<Rightarrow> bool" where
  "user_exists d e = (e \<in> set (map usr_email (users d)))"

definition owners_ok :: "database \<Rightarrow> bool" where
  "owners_ok d =
    list_all (\<lambda>r. case image_user_email r of None \<Rightarrow> True | Some e \<Rightarrow> user_exists d e) (images d)"

definition sql_add_user_email_fk :: "world \<Rightarrow> database \<Rightarrow> error + database" where
  "sql_add_user_email_fk w d =
    execute w AlterImagesAddUserEmailFk
      (case images_def d of
         None \<Rightarrow> Inl (ProgrammingError ''relation does not exist'')
       | Some t \<Rightarrow>
          (if \<not> has_column t ''user_email'' then Inl (ProgrammingError ''column does not exist'')
           else if \<not> fk_target_ok d fk_images_user_email
             then Inl (ProgrammingError ''relation does not exist'')
           else if fk_name fk_images_user_email \<in> set (map fk_name (foreign_keys t))
             then Inl (ProgrammingError ''constraint already exists'')
           else if \<not> owners_ok d then Inl (IntegrityError ''foreign key violation'')
           else Inr (d\<lparr>images_def :=
                         Some (t\<lparr>foreign_keys := foreign_keys t @ [fk_images_user_email]\<rparr>),
                       journal := journal d @ [AlterImagesAddUserEmailFk]\<rparr>)))"

text \<open>The catalogue queries of \<open>ensure_schema\<close> (\<open>SELECT EXISTS (... information_schema ...)\<close>).\<close>

definition sql_table_exists :: "world \<Rightarrow> database \<Rightarrow> string \<Rightarrow> error + bool" where
  "sql_table_exists w d n =
    execute w (TableExists n)
      (Inr (lookup_table d n \<noteq> None))"

definition sql_column_exists :: "world \<Rightarrow> database \<Rightarrow> string \<Rightarrow> string \<Rightarrow> error + bool" where
  "sql_column_exists w d n c =
    execute w (ColumnExists n c)
      (Inr (case lookup_table d n of None \<Rightarrow> False | Some t \<Rightarrow> has_column t c))"

subsection \<open>Statements on users\<close>

text \<open>\<open>users.email\<close> is the primary key: inserting an email that is there already fails.\<close>

definition sql_select_user :: "world \<Rightarrow> database \<Rightarrow> pystr \<Rightarrow> error + user_row list" where
  "sql_select_user w d e =
    execute w (SelectUser e)
      (case relation (users_def d) [''email''] of
         Inl err \<Rightarrow> Inl err
       | Inr t \<Rightarrow> Inr (filter (\<lambda>r. usr_email r = e) (users d)))"

definition insert_user_row ::
  "world \<Rightarrow> database \<Rightarrow> request \<Rightarrow> table_def \<Rightarrow> pystr \<Rightarrow> pystr \<Rightarrow> error + database" where
  "insert_user_row w d r t e h =
    (if user_exists d e then Inl (IntegrityError ''duplicate key value'')
     else Inr (d\<lparr>users := users d @
                   [\<lparr>usr_email = e, usr_password_hash = h,
                     usr_created_at = (if has_column t ''created_at'' then Some (db_now w) else None)\<rparr>],
                 journal := journal d @ [r]\<rparr>))"

definition sql_insert_user :: "world \<Rightarrow> database \<Rightarrow> pystr \<Rightarrow> pystr \<Rightarrow> error + database" where
  "sql_insert_user w d e h =
    execute w (InsertUser e h)
      (case relation (users_def d) [''email'', ''password_hash''] of
         Inl err \<Rightarrow> Inl err
       | Inr t \<Rightarrow> insert_user_row w d (InsertUser e h) t e h)"

definition sql_insert_admin :: "world \<Rightarrow> database \<Rightarrow> pystr \<Rightarrow> pystr \<Rightarrow> error + database" where
  "sql_insert_admin w d e h =
    execute w (InsertAdmin e h)
      (case relation (users_def d) [''email'', ''password_hash'', ''created_at''] of
         Inl err \<Rightarrow> Inl err
       | Inr t \<Rightarrow> insert_user_row w d (InsertAdmin e h) t e h)"

subsection \<open>Creating the tables (db.py)\<close>

text \<open>
  Each function returns the value it returns together with the committed store.
  \<open>create_table_users\<close> and \<open>create_table_images\<close> return False without a connection and
  let an error of the statement escape; \<open>create_table_statistics\<close> catches everything.
\<close>

definition create_table_users :: "world \<Rightarrow> database \<Rightarrow> (error + bool) \<times> database" where
  "create_table_users w d =
    (if \<not> reachable w then (Inr False, d)
     else (case sql_create_users w d of Inl e \<Rightarrow> (Inl e, d) | Inr d' \<Rightarrow> (Inr True, d')))"

definition create_table_images :: "world \<Rightarrow> database \<Rightarrow> (error + bool) \<times> database" where
  "create_table_images w d =
    (if \<not> reachable w then (Inr False, d)
     else (case sql_create_images w d of Inl e \<Rightarrow> (Inl e, d) | Inr d' \<Rightarrow> (Inr True, d')))"

definition create_table_statistics :: "world \<Rightarrow> database \<Rightarrow> bool \<times> database" where
  "create_table_statistics w d =
    (if \<not> reachable w then (False, d)
     else (case sql_create_statistics w d of Inl e \<Rightarrow> (False, d) | Inr d' \<Rightarrow> (True, d')))"

subsection \<open>ensure_admin_user\<close>

text \<open>\<open>os.getenv('CREATE_ADMIN_USER', 'false').lower() == 'true'\<close>\<close>

definition create_admin :: "world \<Rightarrow> bool" where
  "create_admin w =
    (map ascii_lower (case env_create_admin_user w of None \<Rightarrow> py ''false'' | Some v \<Rightarrow> v)
       = py ''true'')"

definition ensure_admin_user :: "world \<Rightarrow> database \<Rightarrow> bool \<times> database" where
  "ensure_admin_user w d =
    (if \<not> create_admin w then (True, d)
     else
       (case (env_admin_email w, env_admin_password w) of
          (Some e, Some pw) \<Rightarrow>
            (if e = [] \<or> pw = [] then (False, d)
             else if \<not> reachable w then (False, d)
             else
               (case sql_select_user w d e of
                  Inl err \<Rightarrow> (False, d)
                | Inr [] \<Rightarrow>
                    (case sql_insert_admin w d e (digest w pw) of
                       Inl err \<Rightarrow> (False, d)
                     | Inr d' \<Rightarrow> (True, d'))
                | Inr (r # rs) \<Rightarrow> (True, d)))
        | _ \<Rightarrow> (False, d)))"

subsection \<open>ensure_schema\<close>

text \<open>
  The steps of \<open>ensure_schema\<close>, each giving the error that ended it, if any, and the
  store as committed at that point. The two ALTER statements for \<open>user_email\<close> are
  committed together; an error rolls the open transaction back.
\<close>

definition users_step :: "world \<Rightarrow> database \<Rightarrow> error option \<times> database" where
  "users_step w d =
    (case sql_table_exists w d ''users'' of
       Inl e \<Rightarrow> (Some e, d)
     | Inr True \<Rightarrow> (None, d)
     | Inr False \<Rightarrow>
        (case create_table_users w d of
           (Inl e, d') \<Rightarrow> (Some e, d')
         | (Inr b, d') \<Rightarrow> (None, d')))"

definition user_email_step :: "world \<Rightarrow> database \<Rightarrow> error option \<times> database" where
  "user_email_step w d =
    (case sql_column_exists w d ''images'' ''user_email'' of
       Inl e \<Rightarrow> (Some e, d)
     | Inr True \<Rightarrow> (None, d)
     | Inr False \<Rightarrow>
        (case sql_add_user_email w d of
           Inl e \<Rightarrow> (Some e, d)
         | Inr d1 \<Rightarrow>
            (case sql_add_user_email_fk w d1 of
               Inl e \<Rightarrow> (Some e, d)
             | Inr d2 \<Rightarrow> (None, d2))))"

definition expiration_date_step :: "world \<Rightarrow> database \<Rightarrow> error option \<times> database" where
  "expiration_date_step w d =
    (case sql_column_exists w d ''images'' ''expiration_date'' of
       Inl e \<Rightarrow> (Some e, d)
     | Inr True \<Rightarrow> (None, d)
     | Inr False \<Rightarrow>
        (case sql_add_expiration_date w d of
           Inl e \<Rightarrow> (Some e, d)
         | Inr d1 \<Rightarrow> (None, d1)))"

definition images_step :: "world \<Rightarrow> database \<Rightarrow> error option \<times> database" where
  "images_step w d =
    (case sql_table_exists w d ''images'' of
       Inl e \<Rightarrow> (Some e, d)
     | Inr False \<Rightarrow>
        (case create_table_images w d of
           (Inl e, d') \<Rightarrow> (Some e, d')
         | (Inr b, d') \<Rightarrow> (None, d'))
     | Inr True \<Rightarrow>
        (case user_email_step w d of
           (Some e, d1) \<Rightarrow> (Some e, d1)
         | (None, d1) \<Rightarrow> expiration_date_step w d1))"

definition statistics_step :: "world \<Rightarrow> database \<Rightarrow> error option \<times> database" where
  "statistics_step w d =
    (case sql_table_exists w d ''statistics'' of
       Inl e \<Rightarrow> (Some e, d)
     | Inr True \<Rightarrow> (None, d)
     | Inr False \<Rightarrow> (None, snd (create_table_statistics w d)))"

definition ensure_schema :: "world \<Rightarrow> bool \<times> database" where
  "ensure_schema w =
    (if \<not> reachable w then (False, db w)
     else
       (case users_step w (db w) of
          (Some e, d1) \<Rightarrow> (False, d1)
        | (None, d1) \<Rightarrow>
           (case images_step w d1 of
              (Some e, d2) \<Rightarrow> (False, d2)
            | (None, d2) \<Rightarrow>
               (case statistics_step w d2 of
                  (Some e, d3) \<Rightarrow> (False, d3)
                | (None, d3) \<Rightarrow> (True, snd (ensure_admin_user w d3))))))"

text \<open>Running the reconciler again on the store it left.\<close>

definition again :: "world \<Rightarrow> world" where
  "again w = w\<lparr>db := snd (ensure_schema w)\<rparr>"

text \<open>What the reconciler is about: the definitions of the three tables.\<close>

definition schema :: "database \<Rightarrow> table_def option \<times> table_def option \<times> table_def option" where
  "schema d = (users_def d, images_def d, statistics_def d)"

text \<open>
  The reconciler looks for three tables and, in \<open>images\<close>, for two columns. A store is
  complete when it has them. A prior state is one the reconciler can work on when a
  \<open>users\<close> table that exists has its \<open>email\<close> column, and an \<open>images\<close> table that lacks
  \<open>user_email\<close> does not already hold a constraint of the name the reconciler uses.
\<close>

definition complete :: "database \<Rightarrow> bool" where
  "complete d =
    (users_def d \<noteq> None \<and> statistics_def d \<noteq> None \<and>
     (case images_def d of
        None \<Rightarrow> False
      | Some t \<Rightarrow> has_column t ''user_email'' \<and> has_column t ''expiration_date''))"

definition valid_prior :: "database \<Rightarrow> bool" where
  "valid_prior d =
    ((case users_def d of None \<Rightarrow> True | Some t \<Rightarrow> has_column t ''email'') \<and>
     (case images_def d of
        None \<Rightarrow> True
      | Some t \<Rightarrow> has_column t ''user_email'' \<or>
                  fk_name fk_images_user_email \<notin> set (map fk_name (foreign_keys t))))"

subsection \<open>The schema init_db.py creates\<close>

text \<open>init_db.py creates \<open>users\<close> and \<open>images\<close> as db.py does, and \<open>statistics\<close> with text
  columns and two foreign keys.\<close>

definition init_db_statistics_table :: table_def where
  "init_db_statistics_table =
    \<lparr>columns = [(''id'', ''SERIAL''), (''action_type'', ''TEXT''), (''user_email'', ''TEXT''),
       (''file_id'', ''INTEGER''), (''ip_address'', ''TEXT''), (''user_agent'', ''TEXT''),
       (''timestamp'', ''TIMESTAMP''), (''additional_info'', ''TEXT'')],
     foreign_keys =
       [\<lparr>fk_name = ''statistics_user_email_fkey'', fk_column = ''user_email'',
          fk_table = ''users'', fk_ref = ''email'', fk_on_delete = SetNull\<rparr>,
        \<lparr>fk_name = ''statistics_file_id_fkey'', fk_column = ''file_id'',
          fk_table = ''images'', fk_ref = ''id'', fk_on_delete = SetNull\<rparr>]\<rparr>"

subsection \<open>Example stores\<close>

definition empty_db :: database where
  "empty_db =
    \<lparr>users_def = None, images_def = None, statistics_def = None,
     users = [], images = [], statistics = [], images_seq = 1, statistics_seq = 1, journal = []\<rparr>"

text \<open>A store from before images had owners: \<open>users\<close> exists, \<open>images\<close> has neither
  \<open>user_email\<close> nor \<open>expiration_date\<close>.\<close>

definition legacy_images_table :: table_def where
  "legacy_images_table =
    \<lparr>columns = [(''id'', ''SERIAL''), (''filename'', ''TEXT''), (''original_name'', ''TEXT''),
       (''size'', ''INTEGER''), (''upload_time'', ''TIMESTAMP''), (''file_type'', ''TEXT'')],
     foreign_keys = []\<rparr>"

definition legacy_db :: database where
  "legacy_db = empty_db\<lparr>users_def := Some users_table, images_def := Some legacy_images_table\<rparr>"

definition init_db_db :: database where
  "init_db_db =
    empty_db\<lparr>users_def := Some users_table, images_def := Some images_table,
      statistics_def := Some init_db_statistics_table\<rparr>"

definition the_world :: "database \<Rightarrow> world" where
  "the_world d =
    \<lparr>db = d, reachable = True, alive = True, now = 63000000000000000, db_now = 63000000000000000,
     digest = (\<lambda>s. py ''sha256:'' @ s), parses_inet = (\<lambda>s. True),
     env_create_admin_user = None, env_admin_email = None, env_admin_emails = None,
     env_admin_password = None\<rparr>"

section \<open>Data access (db.py, admin_db.py)\<close>

text \<open>
  Every function takes the world it runs in and returns what the caller sees (a value,
  or the exception that escapes) together with the committed store.
\<close>

subsection \<open>Server side: rows\<close>

text \<open>
  \<open>ORDER BY key DESC\<close>: NULLs first, then the larger keys first. Where SQL leaves the order
  of equal keys open the model keeps one order.
\<close>

definition order_desc :: "('r \<Rightarrow> 'k::linorder option) \<Rightarrow> 'r list \<Rightarrow> 'r list" where
  "order_desc key rows =
    filter (\<lambda>r. key r = None) rows @
    rev (sort_key (\<lambda>r. case key r of Some k \<Rightarrow> k) (filter (\<lambda>r. key r \<noteq> None) rows))"

text \<open>\<open>LIMIT n OFFSET m\<close>: both must be non-negative.\<close>

definition limit_offset :: "int \<Rightarrow> int \<Rightarrow> 'r list \<Rightarrow> error + 'r list" where
  "limit_offset n m rows =
    (if n < 0 then Inl (DataError ''LIMIT must not be negative'')
     else if m < 0 then Inl (DataError ''OFFSET must not be negative'')
     else Inr (take (nat n) (drop (nat m) rows)))"

text \<open>What a foreign key does to the rows that reference a deleted key.\<close>

definition fk_effect ::
  "on_delete list \<Rightarrow> ('r \<Rightarrow> bool) \<Rightarrow> ('r \<Rightarrow> 'r) \<Rightarrow> 'r list \<Rightarrow> error + 'r list" where
  "fk_effect acts refs null rows =
    (if Cascade \<in> set acts then Inr (filter (\<lambda>r. \<not> refs r) rows)
     else if SetNull \<in> set acts then Inr (map (\<lambda>r. if refs r then null r else r) rows)
     else if NoAction \<in> set acts \<and> list_ex refs rows
       then Inl (IntegrityError ''still referenced'')
     else Inr rows)"

definition fk_actions :: "table_def option \<Rightarrow> string \<Rightarrow> string \<Rightarrow> on_delete list" where
  "fk_actions t col target =
    (case t of
       None \<Rightarrow> []
     | Some td \<Rightarrow>
        map fk_on_delete
          (filter (\<lambda>k. fk_column k = col \<and> fk_table k = target) (foreign_keys td)))"

text \<open>Deleting image rows, with what the foreign keys of \<open>statistics\<close> on \<open>file_id\<close> do.\<close>

definition delete_images :: "database \<Rightarrow> (image_row \<Rightarrow> bool) \<Rightarrow> error + database" where
  "delete_images d gone =
    (case fk_effect (fk_actions (statistics_def d) ''file_id'' ''images'')
            (\<lambda>s. case stat_file_id s of None \<Rightarrow> False
                  | Some i \<Rightarrow> list_ex (\<lambda>r. gone r \<and> image_id r = i) (images d))
            (\<lambda>s. s\<lparr>stat_file_id := None\<rparr>) (statistics d) of
       Inl e \<Rightarrow> Inl e
     | Inr ss \<Rightarrow> Inr (d\<lparr>images := filter (\<lambda>r. \<not> gone r) (images d), statistics := ss\<rparr>))"

text \<open>
  \<open>DELETE FROM users WHERE email = ...\<close>, as the store carries it out: the foreign keys
  of \<open>images\<close> and of \<open>statistics\<close> on \<open>user_email\<close> decide what happens to the rows of that
  user. No function of the repository issues this statement; it is the event the
  ownership rule speaks of.
\<close>

definition sql_delete_user :: "world \<Rightarrow> database \<Rightarrow> pystr \<Rightarrow> error + database" where
  "sql_delete_user w d e =
    execute w (DeleteUser e)
      (case relation (users_def d) [''email''] of
         Inl err \<Rightarrow> Inl err
       | Inr t \<Rightarrow>
          (case fk_effect (fk_actions (statistics_def d) ''user_email'' ''users'')
                  (\<lambda>s. stat_user_email s = Some e) (\<lambda>s. s\<lparr>stat_user_email := None\<rparr>)
                  (statistics d) of
             Inl err \<Rightarrow> Inl err
           | Inr ss \<Rightarrow>
              (let acts = fk_actions (images_def d) ''user_email'' ''users'';
                   d1 = d\<lparr>users := filter (\<lambda>u. usr_email u \<noteq> e) (users d), statistics := ss\<rparr>
               in if Cascade \<in> set acts
                  then delete_images d1 (\<lambda>r. image_user_email r = Some e)
                  else (case fk_effect acts (\<lambda>r. image_user_email r = Some e)
                               (\<lambda>r. r\<lparr>image_user_email := None\<rparr>) (images d1) of
                          Inl err \<Rightarrow> Inl err
                        | Inr rs \<Rightarrow> Inr (d1\<lparr>images := rs\<rparr>)))))"

subsection \<open>Images\<close>

definition int4 :: "int \<Rightarrow> bool" where
  "int4 i = (- 2147483648 \<le> i \<and> i < 2147483648)"

definition sql_insert_image ::
  "world \<Rightarrow> database \<Rightarrow> pystr \<Rightarrow> pystr \<Rightarrow> int \<Rightarrow> int \<Rightarrow> pystr \<Rightarrow> pystr option \<Rightarrow> int option
     \<Rightarrow> error + database" where
  "sql_insert_image w d fname oname sz up ftype owner expires =
    execute w (InsertImage fname oname sz up ftype owner expires)
      (case relation (images_def d)
              [''filename'', ''original_name'', ''size'', ''upload_time'', ''file_type'',
               ''user_email'', ''expiration_date''] of
         Inl err \<Rightarrow> Inl err
       | Inr t \<Rightarrow>
          (if \<not> int4 sz then Inl (DataError ''integer out of range'')
           else if fk_actions (Some t) ''user_email'' ''users'' \<noteq> [] \<and>
                   (case owner of None \<Rightarrow> False | Some e \<Rightarrow> \<not> user_exists d e)
             then Inl (IntegrityError ''foreign key violation'')
           else Inr (d\<lparr>images := images d @
                         [\<lparr>image_id = images_seq d, image_filename = fname,
                           image_original_name = oname, image_size = sz,
                           image_upload_time = Some up, image_file_type = ftype,
                           image_user_email = owner, image_expiration_date = expires\<rparr>],
                       images_seq := images_seq d + 1,
                       journal := journal d @ [InsertImage fname oname sz up ftype owner expires]\<rparr>)))"

definition save_image ::
  "world \<Rightarrow> pystr \<Rightarrow> pystr \<Rightarrow> int \<Rightarrow> int \<Rightarrow> pystr \<Rightarrow> pystr option \<Rightarrow> int
     \<Rightarrow> (error + bool) \<times> database" where
  "save_image w filename original_name size' upload_time file_type user_email storage_days =
    (if \<not> reachable w then (Inr False, db w)
     else
       (case (if truthy user_email then map_sum id Some (add_days (now w) storage_days)
              else Inr None) of
          Inl e \<Rightarrow> (Inl e, db w)
        | Inr expiration \<Rightarrow>
           (case sql_insert_image w (db w) filename original_name size' upload_time file_type
                   user_email expiration of
              Inl e \<Rightarrow> (Inl e, db w)
            | Inr d' \<Rightarrow> (Inr True, d'))))"

definition images_by :: "string \<Rightarrow> image_row list \<Rightarrow> image_row list" where
  "images_by col rows =
    (if col = ''id'' then order_desc (\<lambda>r. Some (image_id r)) rows
     else if col = ''filename'' then order_desc (\<lambda>r. Some (image_filename r)) rows
     else if col = ''size'' then order_desc (\<lambda>r. Some (image_size r)) rows
     else order_desc image_upload_time rows)"

definition get_images_list :: "world \<Rightarrow> int \<Rightarrow> int \<Rightarrow> pystr \<Rightarrow> error + image_row list" where
  "get_images_list w page per_page sort_by =
    (if \<not> reachable w then Inr []
     else
       execute w (SelectImagesPage page per_page sort_by)
         (case relation (images_def (db w)) [sort_column sort_by] of
            Inl e \<Rightarrow> Inl e
          | Inr t \<Rightarrow>
             limit_offset per_page ((page - 1) * per_page)
               (images_by (sort_column sort_by) (images (db w)))))"

definition get_total_images :: "world \<Rightarrow> error + int" where
  "get_total_images w =
    (if \<not> reachable w then Inr 0
     else
       execute w CountImages
         (case relation (images_def (db w)) [] of
            Inl e \<Rightarrow> Inl e
          | Inr t \<Rightarrow> Inr (int (length (images (db w))))))"

definition get_image_by_id :: "world \<Rightarrow> int \<Rightarrow> error + image_row option" where
  "get_image_by_id w image_id' =
    (if \<not> reachable w then Inr None
     else
       execute w (SelectImage image_id')
         (case relation (images_def (db w)) [''id''] of
            Inl e \<Rightarrow> Inl e
          | Inr t \<Rightarrow>
             Inr (case filter (\<lambda>r. image_id r = image_id') (images (db w)) of
                    [] \<Rightarrow> None
                  | r # rs \<Rightarrow> Some r)))"

definition delete_image :: "world \<Rightarrow> int \<Rightarrow> (error + bool) \<times> database" where
  "delete_image w image_id' =
    (if \<not> reachable w then (Inr False, db w)
     else
       (case execute w (DeleteImage image_id')
               (case relation (images_def (db w)) [''id''] of
                  Inl e \<Rightarrow> Inl e
                | Inr t \<Rightarrow> delete_images (db w) (\<lambda>r. image_id r = image_id')) of
          Inl e \<Rightarrow> (Inl e, db w)
        | Inr d' \<Rightarrow> (Inr True, d')))"

definition get_user_images :: "world \<Rightarrow> pystr \<Rightarrow> int \<Rightarrow> int \<Rightarrow> error + image_row list" where
  "get_user_images w email page per_page =
    (if \<not> reachable w then Inr []
     else
       execute w (SelectUserImages email per_page ((page - 1) * per_page))
         (case relation (images_def (db w)) [''user_email'', ''upload_time''] of
            Inl err \<Rightarrow> Inl err
          | Inr t \<Rightarrow>
             limit_offset per_page ((page - 1) * per_page)
               (order_desc image_upload_time
                  (filter (\<lambda>r. image_user_email r = Some email) (images (db w))))))"

definition get_expired_images :: "world \<Rightarrow> error + image_row list" where
  "get_expired_images w =
    (if \<not> reachable w then Inr []
     else
       execute w (SelectExpiredImages (now w))
         (case relation (images_def (db w)) [''expiration_date''] of
            Inl err \<Rightarrow> Inl err
          | Inr t \<Rightarrow>
             Inr (filter (\<lambda>r. case image_expiration_date r of None \<Rightarrow> False | Some x \<Rightarrow> x < now w)
                    (images (db w)))))"

subsection \<open>Statistics: what the server selects\<close>

text \<open>
  A row is selected when every condition is true of it, each condition reading its
  arguments from the bound list in order. A comparison with NULL is not true.
  \<open>LIKE '%x%'\<close> is containment; \<open>LOWER\<close> is taken on ASCII letters.
\<close>

fun cond_arity :: "cond \<Rightarrow> nat" where
  "cond_arity ActionTypeEq = 1"
| "cond_arity UserIsNull = 0"
| "cond_arity UserActive = 0"
| "cond_arity (UserIn n) = n"
| "cond_arity UserEq = 1"

definition contains :: "pystr \<Rightarrow> pystr \<Rightarrow> bool" where
  "contains s pat = list_ex (prefix pat) (suffixes s)"

fun cond_true :: "cond \<Rightarrow> pyval list \<Rightarrow> stat_row \<Rightarrow> bool" where
  "cond_true ActionTypeEq args r = (args = [PStr (stat_action_type r)])"
| "cond_true UserIsNull args r = (stat_user_email r = None)"
| "cond_true UserActive args r =
     (case stat_user_email r of
        None \<Rightarrow> False
      | Some e \<Rightarrow> \<not> contains e (py ''example.com'') \<and>
                  \<not> contains (map ascii_lower e) (py ''admin''))"
| "cond_true (UserIn n) args r =
     (case stat_user_email r of None \<Rightarrow> False | Some e \<Rightarrow> PStr e \<in> set args)"
| "cond_true UserEq args r =
     (case stat_user_email r of None \<Rightarrow> False | Some e \<Rightarrow> args = [PStr e])"

fun where_true :: "cond list \<Rightarrow> pyval list \<Rightarrow> stat_row \<Rightarrow> bool" where
  "where_true [] args r = True"
| "where_true (c # cs) args r =
     (cond_true c (take (cond_arity c) args) r \<and> where_true cs (drop (cond_arity c) args) r)"

definition statistics_columns :: "string list" where
  "statistics_columns = [''action_type'', ''user_email'', ''ip_address'', ''timestamp'', ''additional_info'']"

text \<open>The columns a condition names.\<close>

fun cond_columns :: "cond \<Rightarrow> string list" where
  "cond_columns ActionTypeEq = [''action_type'']"
| "cond_columns c = [''user_email'']"

text \<open>A row of the result: the five columns of the SELECT list.\<close>

type_synonym stat_view = "pystr \<times> pystr option \<times> pystr option \<times> int \<times> pystr option"

definition view :: "stat_row \<Rightarrow> stat_view" where
  "view r = (stat_action_type r, stat_user_email r, stat_ip_address r, stat_timestamp r, stat_additional_info r)"

subsection \<open>get_statistics_with_filters, get_statistics_count\<close>

text \<open>
  Both functions run inside \<open>try ... except Exception\<close>: without a connection
  \<open>conn.cursor()\<close> raises on None, and whatever is raised ends in the empty list or in
  zero.
\<close>

definition statistics_select ::
  "world \<Rightarrow> pystr option \<Rightarrow> pystr option \<Rightarrow> int \<Rightarrow> int \<Rightarrow> error + stat_view list" where
  "statistics_select w action_type user_email limit offset =
    (if \<not> reachable w then Inl AttributeError
     else
       execute w (SelectStatistics action_type user_email limit offset)
         (case relation (statistics_def (db w)) statistics_columns of
            Inl e \<Rightarrow> Inl e
          | Inr t \<Rightarrow>
             map_sum id (map view)
               (limit_offset limit offset
                  (order_desc (\<lambda>r. Some (stat_timestamp r))
                     (filter (where_true (fst (filter_conditions action_type user_email))
                                (snd (filter_conditions action_type user_email)))
                        (statistics (db w)))))))"

definition get_statistics_with_filters ::
  "world \<Rightarrow> pystr option \<Rightarrow> pystr option \<Rightarrow> int \<Rightarrow> int \<Rightarrow> stat_view list" where
  "get_statistics_with_filters w action_type user_email limit offset =
    (case statistics_select w action_type user_email limit offset of
       Inl e \<Rightarrow> []
     | Inr rows \<Rightarrow> rows)"

definition statistics_count :: "world \<Rightarrow> pystr option \<Rightarrow> pystr option \<Rightarrow> error + int" where
  "statistics_count w action_type user_email =
    (if \<not> reachable w then Inl AttributeError
     else
       execute w (CountStatistics action_type user_email)
         (case relation (statistics_def (db w))
                 (concat (map cond_columns (fst (filter_conditions action_type user_email)))) of
            Inl e \<Rightarrow> Inl e
          | Inr t \<Rightarrow>
             Inr (int (length
                    (filter (where_true (fst (filter_conditions action_type user_email))
                               (snd (filter_conditions action_type user_email)))
                       (statistics (db w)))))))"

definition get_statistics_count :: "world \<Rightarrow> pystr option \<Rightarrow> pystr option \<Rightarrow> int" where
  "get_statistics_count w action_type user_email =
    (case statistics_count w action_type user_email of Inl e \<Rightarrow> 0 | Inr n \<Rightarrow> n)"

subsection \<open>log_statistics\<close>

definition fits :: "table_def \<Rightarrow> string \<Rightarrow> pystr option \<Rightarrow> world \<Rightarrow> bool" where
  "fits t col v w =
    (case v of
       None \<Rightarrow> True
     | Some s \<Rightarrow>
        (if (col, ''VARCHAR(50)'') \<in> set (columns t) then length s \<le> 50
         else if (col, ''VARCHAR(255)'') \<in> set (columns t) then length s \<le> 255
         else if (col, ''INET'') \<in> set (columns t) then parses_inet w s
         else True))"

definition sql_insert_statistics ::
  "world \<Rightarrow> database \<Rightarrow> pystr \<Rightarrow> pystr option \<Rightarrow> int option \<Rightarrow> pystr option \<Rightarrow> pystr option
     \<Rightarrow> pystr option \<Rightarrow> error + database" where
  "sql_insert_statistics w d action who file ip agent info =
    execute w (InsertStatistics action who file ip agent info)
      (case relation (statistics_def d)
              [''action_type'', ''user_email'', ''file_id'', ''ip_address'', ''user_agent'',
               ''additional_info''] of
         Inl err \<Rightarrow> Inl err
       | Inr t \<Rightarrow>
          (if \<not> (fits t ''action_type'' (Some action) w \<and> fits t ''user_email'' who w \<and>
                  fits t ''ip_address'' ip w)
             then Inl (DataError ''value does not fit the column'')
           else if (case file of None \<Rightarrow> False | Some i \<Rightarrow> \<not> int4 i)
             then Inl (DataError ''integer out of range'')
           else if fk_actions (Some t) ''user_email'' ''users'' \<noteq> [] \<and>
                   (case who of None \<Rightarrow> False | Some e \<Rightarrow> \<not> user_exists d e)
             then Inl (IntegrityError ''foreign key violation'')
           else if fk_actions (Some t) ''file_id'' ''images'' \<noteq> [] \<and>
                   (case file of None \<Rightarrow> False
                    | Some i \<Rightarrow> i \<notin> set (map image_id (images d)))
             then Inl (IntegrityError ''foreign key violation'')
           else Inr (d\<lparr>statistics := statistics d @
                         [\<lparr>stat_id = statistics_seq d, stat_action_type = action,
                           stat_user_email = who, stat_file_id = file, stat_ip_address = ip,
                           stat_user_agent = agent, stat_additional_info = info,
                           stat_timestamp = db_now w\<rparr>],
                       statistics_seq := statistics_seq d + 1,
                       journal := journal d @ [InsertStatistics action who file ip agent info]\<rparr>)))"

text \<open>The owner check of \<open>log_statistics\<close>: an email that is no user's is replaced by None.\<close>

definition checked_owner :: "world \<Rightarrow> pystr option \<Rightarrow> error + pystr option" where
  "checked_owner w user_email =
    (case user_email of
       None \<Rightarrow> Inr None
     | Some u \<Rightarrow>
        (if u = [] then Inr (Some u)
         else
           (case sql_select_user w (db w) u of
              Inl e \<Rightarrow> Inl e
            | Inr [] \<Rightarrow> Inr None
            | Inr (r # rs) \<Rightarrow> Inr (Some u))))"

definition log_statistics ::
  "world \<Rightarrow> pystr \<Rightarrow> pystr option \<Rightarrow> int option \<Rightarrow> pystr option \<Rightarrow> pystr option \<Rightarrow> pystr option
     \<Rightarrow> bool \<times> database" where
  "log_statistics w action_type user_email file_id ip_address user_agent additional_info =
    (if \<not> reachable w then (False, db w)
     else
       (case checked_owner w user_email of
          Inl e \<Rightarrow> (False, db w)
        | Inr who \<Rightarrow>
           (case sql_insert_statistics w (db w) action_type who file_id ip_address user_agent
                   additional_info of
              Inl e \<Rightarrow> (False, db w)
            | Inr d' \<Rightarrow> (True, d'))))"

subsection \<open>register_user\<close>

text \<open>
  The outcomes of \<open>register_user\<close>, a pair of a flag and a message in the source. The
  messages are Russian sentences; each constructor stands for one of them:
  the administrator's password is not configured; wrong administrator credentials;
  no connection to the database; a user with this email already exists; registration
  succeeded; an error during registration (with the exception).
\<close>

datatype message =
    AdminPasswordNotSet
  | AdminCredentialsWrong
  | NoConnection
  | AlreadyExists
  | Registered
  | RegistrationError error

definition admin_emails :: "world \<Rightarrow> pystr list" where
  "admin_emails w =
    (let admin_email = (case env_admin_email w of None \<Rightarrow> py ''admin@example.com'' | Some e \<Rightarrow> e);
         listed = comma_list (case env_admin_emails w of
                                None \<Rightarrow> py ''admin@example.com'' | Some s \<Rightarrow> s)
     in if admin_email \<in> set listed then listed else listed @ [admin_email])"

definition register_in_store :: "world \<Rightarrow> pystr \<Rightarrow> pystr \<Rightarrow> (error + bool \<times> message) \<times> database" where
  "register_in_store w email password =
    (if \<not> reachable w then (Inr (False, NoConnection), db w)
     else
       (case sql_select_user w (db w) email of
          Inl err \<Rightarrow> (Inl err, db w)
        | Inr (r # rs) \<Rightarrow> (Inr (False, AlreadyExists), db w)
        | Inr [] \<Rightarrow>
           (case sql_insert_user w (db w) email (digest w password) of
              Inl err \<Rightarrow> (Inr (False, RegistrationError err), db w)
            | Inr d' \<Rightarrow> (Inr (True, Registered), d'))))"

definition register_user :: "world \<Rightarrow> pystr \<Rightarrow> pystr \<Rightarrow> (error + bool \<times> message) \<times> database" where
  "register_user w email password =
    (if email \<in> set (admin_emails w) then
       (if \<not> truthy (env_admin_password w) then (Inr (False, AdminPasswordNotSet), db w)
        else if Some password \<noteq> env_admin_password w then (Inr (False, AdminCredentialsWrong), db w)
        else register_in_store w email password)
     else register_in_store w email password)"

section \<open>What the filters mean, and example data\<close>

text \<open>
  The rows a pair of filters stands for, in the words of the specification: the action
  type, when given, must be equal; the user filter, when given, is \<open>guest\<close> for rows
  without a user, a \<open>CUSTOM_LIST:\<close> for rows whose user is in the list (and for every row
  when the list has no entry), and otherwise the email itself.
\<close>

definition listed :: "pystr \<Rightarrow> stat_row \<Rightarrow> bool" where
  "listed u r =
    (case stat_user_email r of None \<Rightarrow> False | Some e \<Rightarrow> e \<in> set (comma_list (drop 12 u)))"



text \<open>A store as \<open>ensure_schema\<close> makes it from nothing, with three statistics rows.\<close>

definition stat :: "int \<Rightarrow> string \<Rightarrow> string option \<Rightarrow> int \<Rightarrow> stat_row" where
  "stat i a u t =
    \<lparr>stat_id = i, stat_action_type = py a, stat_user_email = map_option py u, stat_file_id = None,
     stat_ip_address = None, stat_user_agent = None, stat_additional_info = None,
     stat_timestamp = t\<rparr>"

definition fresh_db :: database where
  "fresh_db = snd (ensure_schema (the_world empty_db))"

definition stats_db :: database where
  "stats_db =
    fresh_db
      \<lparr>statistics := [stat 1 ''upload'' (Some ''a@x.com'') 10, stat 2 ''download'' None 20,
                      stat 3 ''upload'' (Some ''b@x.com'') 30],
       statistics_seq := 4\<rparr>"

text \<open>A store with one registered user, and a world whose clock reads one second after
  the upload time it is handed.\<close>

definition alice :: pystr where
  "alice = py ''u@x.com''"

definition alice_db :: database where
  "alice_db = snd (register_user (the_world fresh_db) alice (py ''pw1''))"

definition upload_at :: int where
  "upload_at = 63000000000000000 - 1000000"

text \<open>
  The ownership scenario on a store \<open>d0\<close>: the reconciler runs, a user registers and saves
  one image; then the store deletes the user's row.
\<close>

definition uploaded :: "database \<Rightarrow> database" where
  "uploaded d0 =
    (let d1 = snd (ensure_schema (the_world d0));
         d2 = snd (register_user (the_world d1) alice (py ''pw1''))
     in snd (save_image (the_world d2) (py ''f.png'') (py ''cat.png'') 2048 upload_at (py ''png'')
               (Some alice) 30))"

definition owner_deleted :: "database \<Rightarrow> error + database" where
  "owner_deleted d0 = sql_delete_user (the_world (uploaded d0)) (uploaded d0) alice"

definition owners :: "error + database \<Rightarrow> error + pystr option list" where
  "owners r = map_sum id (\<lambda>d. map image_user_email (images d)) r"

text \<open>The \<open>images\<close> table of the legacy store after both ALTER steps of the reconciler.\<close>

definition migrated_images_table :: table_def where
  "migrated_images_table =
     \<lparr>columns = columns legacy_images_table @
               [(''user_email'', ''TEXT''), (''expiration_date'', ''TIMESTAMP'')],
      foreign_keys = [fk_images_user_email]\<rparr>"

section \<open>Properties of the pool\<close>

lemma getconn_never_None: "fst (getconn up p) \<noteq> Inr None"
  by (simp add: getconn_def)

lemma on_except_fields [simp]:
  "pool_exhausted (stats (on_except e self)) = pool_exhausted (stats self)"
  "active_connections (stats (on_except e self)) = active_connections (stats self)"
  "inner (on_except e self) = inner self"
  by (simp_all add: on_except_def)

lemma count_active_fields [simp]:
  "pool_exhausted (stats (count_active self)) = pool_exhausted (stats self)"
  "active_connections (stats (count_active self)) = active_connections (stats self) + 1"
  "inner (count_active self) = inner self"
  by (simp_all add: count_active_def)

lemma getconn_Inl: "getconn up p = (Inl e, p1) \<Longrightarrow> p1 = p"
  by (auto simp: getconn_def split: if_splits)

lemma butlast_last_ids:
  "xs \<noteq> [] \<Longrightarrow> map conn_id xs = map conn_id (butlast xs) @ [conn_id (last xs)]"
  by (metis append_butlast_last_id list.simps(8,9) map_append)

lemma getconn_Some:
  assumes "pool_inv p" and "getconn up p = (Inr (Some c), p1)"
  shows "\<not> pool_closed p1" and "used p1 = used p @ [c]"
    and "conn_id c \<notin> set (map conn_id (used p))"
    and "trace p1 = trace p @ [Checkout (conn_id c)]"
    and "pool_inv p1" and "minconn p1 = minconn p"
    and "idle p \<noteq> [] \<Longrightarrow> c = last (idle p) \<and> idle p1 = butlast (idle p)"
    and "idle p = [] \<Longrightarrow> idle p1 = []"
proof -
  show "\<not> pool_closed p1" "used p1 = used p @ [c]" "trace p1 = trace p @ [Checkout (conn_id c)]"
    "minconn p1 = minconn p" "idle p \<noteq> [] \<Longrightarrow> c = last (idle p) \<and> idle p1 = butlast (idle p)"
    "idle p = [] \<Longrightarrow> idle p1 = []"
    using assms(2) by (auto simp: getconn_def split: if_splits)
  show "conn_id c \<notin> set (map conn_id (used p))"
  proof (cases "idle p = []")
    case True
    with assms show ?thesis
      by (auto simp: getconn_def pool_inv_def list_all_iff split: if_splits)
  next
    case False
    with assms(2) have c: "c = last (idle p)" by (auto simp: getconn_def split: if_splits)
    from False have "conn_id (last (idle p)) \<in> set (map conn_id (idle p))" by simp
    with assms(1) c show ?thesis by (auto simp: pool_inv_def)
  qed
  show "pool_inv p1"
  proof (cases "idle p = []")
    case True
    with assms(2) have p1: "idle p1 = []" "used p1 = used p @ [c]" "conn_id c = next_id p"
      "next_id p1 = Suc (next_id p)"
      by (auto simp: getconn_def split: if_splits)
    from assms(1) True have d: "distinct (map conn_id (used p))"
      and b: "list_all (\<lambda>c. conn_id c < next_id p) (used p)"
      by (simp_all add: pool_inv_def)
    from b have "next_id p \<notin> set (map conn_id (used p))"
      by (auto simp: list_all_iff)
    moreover from b have "list_all (\<lambda>c. conn_id c < Suc (next_id p)) (used p)"
      by (auto simp: list_all_iff less_SucI)
    ultimately show ?thesis using p1 d by (simp add: pool_inv_def)
  next
    case False
    with assms(2) have p1: "idle p1 = butlast (idle p)" "used p1 = used p @ [last (idle p)]"
      "next_id p1 = next_id p"
      by (auto simp: getconn_def split: if_splits)
    from False have ids: "map conn_id (idle p) = map conn_id (butlast (idle p)) @ [conn_id (last (idle p))]"
      by (rule butlast_last_ids)
    from assms(1) have d: "distinct (map conn_id (idle p) @ map conn_id (used p))"
      and b: "list_all (\<lambda>c. conn_id c < next_id p) (idle p)" "list_all (\<lambda>c. conn_id c < next_id p) (used p)"
      by (simp_all add: pool_inv_def)
    from d ids have "distinct (map conn_id (butlast (idle p)) @ map conn_id (used p) @ [conn_id (last (idle p))])"
      by auto
    moreover from b False have "list_all (\<lambda>c. conn_id c < next_id p) (butlast (idle p))"
      "conn_id (last (idle p)) < next_id p"
      by (auto simp: list_all_iff dest: in_set_butlastD)
    ultimately show ?thesis using p1 b by (simp add: pool_inv_def)
  qed
qed


lemma putconn_own:
  assumes "\<not> pool_closed p" and "used p = us @ [c0]" and "conn_id c = conn_id c0"
    and "conn_id c0 \<notin> set (map conn_id us)"
  shows "putconn p c cl =
    (Inr (), p\<lparr>idle := keep_idle p c cl, used := us, trace := trace p @ [Return (conn_id c)]\<rparr>)"
proof -
  from assms(4) have "filter (\<lambda>u. conn_id u \<noteq> conn_id c0) us = us"
    by (induction us) auto
  with assms show ?thesis
    by (simp add: putconn_def keyed_def)
qed

lemma putconn_foreign:
  assumes "conn_id c \<notin> set (map conn_id (used p))"
  shows "\<exists>e. putconn p c cl = (Inl e, p)"
  using assms by (simp add: putconn_def keyed_def)

lemma keep_idle_cases:
  "keep_idle p c cl = idle p \<or> keep_idle p c cl = idle p @ [c\<lparr>txn := TxIdle\<rparr>]"
  by (cases "txn c") (auto simp: keep_idle_def)

lemma pool_inv_putconn:
  assumes "pool_inv p" and "used p = us @ [c0]" and "conn_id c = conn_id c0"
  shows "pool_inv (p\<lparr>idle := keep_idle p c cl, used := us, trace := t\<rparr>)"
proof -
  from assms(1,2) have d: "distinct (map conn_id (idle p) @ map conn_id us @ [conn_id c0])"
    and b: "list_all (\<lambda>c. conn_id c < next_id p) (idle p)" "list_all (\<lambda>c. conn_id c < next_id p) us"
      "conn_id c0 < next_id p"
    by (simp_all add: pool_inv_def)
  from keep_idle_cases [of p c cl] show ?thesis
  proof
    assume "keep_idle p c cl = idle p"
    with d b show ?thesis by (simp add: pool_inv_def)
  next
    assume "keep_idle p c cl = idle p @ [c\<lparr>txn := TxIdle\<rparr>]"
    with d b assms(3) show ?thesis by (auto simp: pool_inv_def)
  qed
qed


lemma release_own:
  assumes "\<not> pool_closed (inner self)" and "used (inner self) = us @ [c0]"
    and "conn_id c = conn_id c0" and "conn_id c0 \<notin> set (map conn_id us)"
  shows "release self (Some c) =
    self\<lparr>inner := (inner self)\<lparr>idle := keep_idle (inner self) c False, used := us,
                trace := trace (inner self) @ [Return (conn_id c)]\<rparr>,
         stats := (stats self)\<lparr>active_connections := active_connections (stats self) - 1\<rparr>\<rparr>"
  using putconn_own [OF assms, of False] by (simp add: release_def)

lemma release_foreign:
  assumes "conn_id c \<notin> set (map conn_id (used (inner self)))"
  shows "release self (Some c) = self"
  using putconn_foreign [OF assms, of False] by (auto simp: release_def)

lemma yield_conn_own:
  assumes inv: "pool_inv (inner self)" and open_pool: "\<not> pool_closed (inner self)"
    and us: "used (inner self) = us @ [c0]" and fresh: "conn_id c0 \<notin> set (map conn_id us)"
  shows "active_connections (stats (snd (yield_conn body self (Some c0)))) =
           active_connections (stats self)"
    and "used (inner (snd (yield_conn body self (Some c0)))) = us"
    and "trace (inner (snd (yield_conn body self (Some c0)))) =
           trace (inner self) @ [Return (conn_id c0)]"
    and "pool_inv (inner (snd (yield_conn body self (Some c0))))"
    and "idle (inner (snd (yield_conn body self (Some c0)))) =
           keep_idle (inner self)
             (c0\<lparr>closed := fst (snd (body (Some c0))), txn := snd (snd (body (Some c0)))\<rparr>) False"
    and "minconn (inner (snd (yield_conn body self (Some c0)))) = minconn (inner self)"
proof -
  obtain r cl tx where b: "body (Some c0) = (r, cl, tx)"
    by (cases "body (Some c0)") auto
  define c where "c = c0\<lparr>closed := cl, txn := tx\<rparr>"
  have cid: "conn_id c = conn_id c0" by (simp add: c_def)
  define base where "base = (case r of Inl e \<Rightarrow> on_except e (count_active self) | Inr v \<Rightarrow> count_active self)"
  have base: "inner base = inner self"
    "active_connections (stats base) = active_connections (stats self) + 1"
    by (cases r; simp add: base_def)+
  have y: "snd (yield_conn body self (Some c0)) = release base (Some c)"
    using b by (cases r) (simp_all add: yield_conn_def after_block_def base_def c_def)
  have rel: "release base (Some c) =
    base\<lparr>inner := (inner self)\<lparr>idle := keep_idle (inner self) c False, used := us,
                trace := trace (inner self) @ [Return (conn_id c)]\<rparr>,
         stats := (stats base)\<lparr>active_connections := active_connections (stats base) - 1\<rparr>\<rparr>"
    using release_own [of base us c0 c] open_pool us fresh cid base(1) by simp
  show "active_connections (stats (snd (yield_conn body self (Some c0)))) =
           active_connections (stats self)"
    by (simp add: y rel base)
  show "used (inner (snd (yield_conn body self (Some c0)))) = us"
    by (simp add: y rel)
  show "trace (inner (snd (yield_conn body self (Some c0)))) =
           trace (inner self) @ [Return (conn_id c0)]"
    by (simp add: y rel cid)
  show "pool_inv (inner (snd (yield_conn body self (Some c0))))"
    using pool_inv_putconn [OF inv us cid] by (simp add: y rel)
  show "idle (inner (snd (yield_conn body self (Some c0)))) =
           keep_idle (inner self)
             (c0\<lparr>closed := fst (snd (body (Some c0))), txn := snd (snd (body (Some c0)))\<rparr>) False"
  proof -
    have "idle (inner (snd (yield_conn body self (Some c0)))) = keep_idle (inner self) c False"
      by (simp add: y rel)
    then show ?thesis by (simp add: c_def b)
  qed
  show "minconn (inner (snd (yield_conn body self (Some c0)))) = minconn (inner self)"
    by (simp add: y rel)
qed

lemma keep_idle_healthy:
  assumes "length (idle p) < minconn p" and "\<not> closed c" and "txn c \<noteq> TxUnknown"
  shows "keep_idle p c False = idle p @ [c\<lparr>txn := TxIdle\<rparr>]"
  using assms by (cases "txn c") (simp_all add: keep_idle_def)


text \<open>One scoped acquisition.\<close>

lemma get_connection_cycle:
  assumes inv: "pool_inv (inner self)"
  shows "active_connections (stats (snd (get_connection up body self))) =
           active_connections (stats self)"
    and "used (inner (snd (get_connection up body self))) = used (inner self)"
    and "pool_inv (inner (snd (get_connection up body self)))"
    and "\<exists>ev. trace (inner (snd (get_connection up body self))) = trace (inner self) @ ev \<and>
           returned_once ev"
    and "minconn (inner (snd (get_connection up body self))) = minconn (inner self)"
    and "idle (inner self) \<noteq> [] \<Longrightarrow> \<not> closed (last (idle (inner self))) \<Longrightarrow>
         length (idle (inner self)) \<le> minconn (inner self) \<Longrightarrow> healthy body \<Longrightarrow>
         map conn_id (idle (inner (snd (get_connection up body self)))) = map conn_id (idle (inner self)) \<and>
         \<not> closed (last (idle (inner (snd (get_connection up body self)))))"
proof -
  let ?H = "idle (inner self) \<noteq> [] \<and> \<not> closed (last (idle (inner self))) \<and>
         length (idle (inner self)) \<le> minconn (inner self) \<and> healthy body"
  let ?P = "\<lambda>self'. active_connections (stats self') = active_connections (stats self) \<and>
      used (inner self') = used (inner self) \<and> pool_inv (inner self') \<and>
      (\<exists>ev. trace (inner self') = trace (inner self) @ ev \<and> returned_once ev) \<and>
      minconn (inner self') = minconn (inner self) \<and>
      (?H \<longrightarrow> map conn_id (idle (inner self')) = map conn_id (idle (inner self)) \<and>
              \<not> closed (last (idle (inner self'))))"
  have "?P (snd (get_connection up body self))"
  proof (cases "getconn up (inner self)")
    case (Pair g p1)
    note g = this
    show ?thesis
    proof (cases g)
      case (Inl e)
      with g getconn_Inl have "p1 = inner self" by blast
      with g Inl inv show ?thesis
        by (simp add: get_connection_def fail_before_yield_def release_def returned_once_def)
    next
      case (Inr conn)
      from g Inr getconn_never_None [of up "inner self"] obtain c where c: "conn = Some c"
        by (cases conn) auto
      from g Inr c have gc: "getconn up (inner self) = (Inr (Some c), p1)" by simp
      note s1 = getconn_Some [OF inv gc]
      show ?thesis
      proof (cases "closed c")
        case False
        let ?s1 = "self\<lparr>inner := p1\<rparr>"
        have res: "snd (get_connection up body self) = snd (yield_conn body ?s1 (Some c))"
          using gc False by (simp add: get_connection_def)
        have y: "active_connections (stats (snd (yield_conn body ?s1 (Some c)))) = active_connections (stats ?s1)"
          "used (inner (snd (yield_conn body ?s1 (Some c)))) = used (inner self)"
          "trace (inner (snd (yield_conn body ?s1 (Some c)))) = trace (inner ?s1) @ [Return (conn_id c)]"
          "pool_inv (inner (snd (yield_conn body ?s1 (Some c))))"
          "idle (inner (snd (yield_conn body ?s1 (Some c)))) =
             keep_idle p1 (c\<lparr>closed := fst (snd (body (Some c))), txn := snd (snd (body (Some c)))\<rparr>) False"
          "minconn (inner (snd (yield_conn body ?s1 (Some c)))) = minconn (inner self)"
          using yield_conn_own [of ?s1 "used (inner self)" c body] s1 by simp_all
        have ro: "returned_once [Checkout (conn_id c), Return (conn_id c)]"
          by (simp add: returned_once_def)
        have "map conn_id (idle (inner (snd (yield_conn body ?s1 (Some c))))) = map conn_id (idle (inner self)) \<and>
              \<not> closed (last (idle (inner (snd (yield_conn body ?s1 (Some c))))))" if h: ?H
        proof -
          from h s1(7) have c: "c = last (idle (inner self))" and i1: "idle p1 = butlast (idle (inner self))"
            by simp_all
          from h i1 s1(6) have "length (idle p1) < minconn p1"
            by (cases "idle (inner self)" rule: rev_cases) simp_all
          moreover from h have "\<not> fst (snd (body (Some c)))" "snd (snd (body (Some c))) \<noteq> TxUnknown"
            by (simp_all add: healthy_def)
          ultimately have "keep_idle p1 (c\<lparr>closed := fst (snd (body (Some c))), txn := snd (snd (body (Some c)))\<rparr>) False
              = idle p1 @ [c\<lparr>closed := fst (snd (body (Some c))), txn := TxIdle\<rparr>]"
            using keep_idle_healthy [of p1 "c\<lparr>closed := fst (snd (body (Some c))), txn := snd (snd (body (Some c)))\<rparr>"]
            by simp
          with y(5) i1 c h butlast_last_ids [of "idle (inner self)"]
            \<open>\<not> fst (snd (body (Some c)))\<close> show ?thesis by simp
        qed
        with y ro s1(4) show ?thesis by (simp add: res)
      next
        case True
        have pc: "putconn p1 c True =
          (Inr (), p1\<lparr>idle := keep_idle p1 c True, used := used (inner self),
                    trace := trace p1 @ [Return (conn_id c)]\<rparr>)"
          using putconn_own [of p1 "used (inner self)" c c True] s1 by simp
        define p2 where "p2 = p1\<lparr>idle := keep_idle p1 c True, used := used (inner self),
                    trace := trace p1 @ [Return (conn_id c)]\<rparr>"
        have inv2: "pool_inv p2"
          unfolding p2_def using pool_inv_putconn [OF s1(5) s1(2), where c = c and cl = True] by simp
        have p2: "used p2 = used (inner self)"
          "trace p2 = trace (inner self) @ [Checkout (conn_id c), Return (conn_id c)]"
          by (simp_all add: p2_def s1)
        have idle2: "idle p2 = idle p1" by (simp add: p2_def keep_idle_def)
        have min2: "minconn p2 = minconn (inner self)" by (simp add: p2_def s1)
        have noH: "\<not> ?H"
        proof
          assume h: ?H
          with s1(7) have "c = last (idle (inner self))" by simp
          with h True show False by simp
        qed
        show ?thesis
        proof (cases "getconn up p2")
          case (Pair g2 p3)
          note g2 = this
          show ?thesis
          proof (cases g2)
            case (Inl e)
            with g2 getconn_Inl have p3: "p3 = p2" by blast
            have res: "snd (get_connection up body self) =
                release (on_except e (self\<lparr>inner := p2\<rparr>)) (Some c)"
              using gc True pc g2 Inl p3
              by (simp add: get_connection_def fail_before_yield_def p2_def)
            have "release (on_except e (self\<lparr>inner := p2\<rparr>)) (Some c) = on_except e (self\<lparr>inner := p2\<rparr>)"
              using release_foreign [of c "on_except e (self\<lparr>inner := p2\<rparr>)"] s1(3) p2(1) by simp
            moreover have "returned_once [Checkout (conn_id c), Return (conn_id c)]"
              by (simp add: returned_once_def)
            ultimately show ?thesis using inv2 p2 min2 noH by (auto simp: res)
          next
            case (Inr conn2)
            from g2 Inr getconn_never_None [of up p2] obtain c2 where c2: "conn2 = Some c2"
              by (cases conn2) auto
            from g2 Inr c2 have gc2: "getconn up p2 = (Inr (Some c2), p3)" by simp
            note s3 = getconn_Some [OF inv2 gc2]
            let ?s3 = "self\<lparr>inner := p3\<rparr>"
            have res: "snd (get_connection up body self) = snd (yield_conn body ?s3 (Some c2))"
              using gc True pc gc2 by (simp add: get_connection_def p2_def)
            have y: "active_connections (stats (snd (yield_conn body ?s3 (Some c2)))) = active_connections (stats ?s3)"
              "used (inner (snd (yield_conn body ?s3 (Some c2)))) = used (inner self)"
              "trace (inner (snd (yield_conn body ?s3 (Some c2)))) = trace (inner ?s3) @ [Return (conn_id c2)]"
              "pool_inv (inner (snd (yield_conn body ?s3 (Some c2))))"
              "minconn (inner (snd (yield_conn body ?s3 (Some c2)))) = minconn (inner self)"
              using yield_conn_own(1,2,3,4,6) [of ?s3 "used (inner self)" c2 body] s3 p2(1) min2 by simp_all
            have ne: "conn_id c2 \<noteq> conn_id c"
            proof (cases "idle p2 = []")
              case True
              with gc2 have "conn_id c2 = next_id p2"
                by (auto simp: getconn_def split: if_splits)
              moreover have "conn_id c < next_id p1"
                using s1(5) s1(2) by (simp add: pool_inv_def)
              moreover have "next_id p2 = next_id p1" by (simp add: p2_def)
              ultimately show ?thesis by simp
            next
              case False
              with s3(7) have "c2 = last (idle p2)" by simp
              with False have "conn_id c2 \<in> set (map conn_id (idle p1))"
                using idle2 by simp
              moreover have "conn_id c \<notin> set (map conn_id (idle p1))"
                using s1(5) s1(2) by (auto simp: pool_inv_def)
              ultimately show ?thesis by auto
            qed
            then have "returned_once [Checkout (conn_id c), Return (conn_id c),
                Checkout (conn_id c2), Return (conn_id c2)]"
              by (simp add: returned_once_def)
            with y s3(4) p2(2) noH show ?thesis by (auto simp: res)
          qed
        qed
      qed
    qed
  qed
  then show "active_connections (stats (snd (get_connection up body self))) =
           active_connections (stats self)"
    and "used (inner (snd (get_connection up body self))) = used (inner self)"
    and "pool_inv (inner (snd (get_connection up body self)))"
    and "\<exists>ev. trace (inner (snd (get_connection up body self))) = trace (inner self) @ ev \<and>
           returned_once ev"
    and "minconn (inner (snd (get_connection up body self))) = minconn (inner self)"
    and "idle (inner self) \<noteq> [] \<Longrightarrow> \<not> closed (last (idle (inner self))) \<Longrightarrow>
         length (idle (inner self)) \<le> minconn (inner self) \<Longrightarrow> healthy body \<Longrightarrow>
         map conn_id (idle (inner (snd (get_connection up body self)))) = map conn_id (idle (inner self)) \<and>
         \<not> closed (last (idle (inner (snd (get_connection up body self)))))"
    by blast+
qed

lemma release_exhausted [simp]:
  "pool_exhausted (stats (release self conn)) = pool_exhausted (stats self)"
  by (simp add: release_def split: option.splits prod.splits sum.splits)

lemma fail_before_yield_exhausted [simp]:
  "pool_exhausted (stats (snd (fail_before_yield e self conn))) = pool_exhausted (stats self)"
  by (simp add: fail_before_yield_def)

lemma yield_conn_exhausted [simp]:
  "pool_exhausted (stats (snd (yield_conn body self conn))) = pool_exhausted (stats self)"
  by (simp add: yield_conn_def split: prod.splits sum.splits)

text \<open>
  The counter \<open>pool_exhausted\<close> is written only where \<open>getconn\<close> returns a false value,
  which the driver never does: no call changes it.
\<close>

lemma pool_exhausted_never_counted:
  "pool_exhausted (stats (snd (get_connection up body self))) = pool_exhausted (stats self)"
proof (cases "getconn up (inner self)")
  case (Pair g p1)
  note g = this
  show ?thesis
  proof (cases g)
    case (Inl e)
    with g show ?thesis by (simp add: get_connection_def)
  next
    case (Inr conn)
    from g Inr getconn_never_None [of up "inner self"] obtain c where c: "conn = Some c"
      by (cases conn) auto
    show ?thesis
    proof (cases "closed c")
      case False
      with g Inr c show ?thesis by (simp add: get_connection_def)
    next
      case True
      show ?thesis
      proof (cases "putconn p1 c True")
        case (Pair u p2)
        note pc = this
        show ?thesis
        proof (cases u)
          case (Inl e)
          with g \<open>g = Inr conn\<close> c True pc show ?thesis by (simp add: get_connection_def)
        next
          case (Inr uu)
          note u = this
          show ?thesis
          proof (cases "getconn up p2")
            case (Pair g2 p3)
            with g \<open>g = Inr conn\<close> c True pc u show ?thesis
              by (cases g2) (simp_all add: get_connection_def)
          qed
        qed
      qed
    qed
  qed
qed

lemma cycles_inv:
  assumes "pool_inv (inner self)"
  shows "active_connections (stats (cycles up bs self)) = active_connections (stats self) \<and>
    used (inner (cycles up bs self)) = used (inner self) \<and>
    pool_inv (inner (cycles up bs self)) \<and>
    (\<exists>evs. length evs = length bs \<and> list_all returned_once evs \<and>
       trace (inner (cycles up bs self)) = trace (inner self) @ concat evs) \<and>
    (idle (inner self) \<noteq> [] \<and> \<not> closed (last (idle (inner self))) \<and>
     length (idle (inner self)) \<le> minconn (inner self) \<and> list_all healthy bs \<longrightarrow>
       map conn_id (idle (inner (cycles up bs self))) = map conn_id (idle (inner self)))"
  using assms
proof (induction bs arbitrary: self)
  case Nil
  have "length ([] :: pool_event list list) = 0 \<and> list_all returned_once [] \<and>
     trace (inner self) = trace (inner self) @ concat []" by simp
  then show ?case using Nil by auto
next
  case (Cons b bs)
  let ?s1 = "snd (get_connection up b self)"
  note c1 = get_connection_cycle [OF Cons.prems, where up = up and body = b]
  note ih = Cons.IH [OF c1(3)]
  from c1(4) obtain ev where ev: "trace (inner ?s1) = trace (inner self) @ ev" "returned_once ev"
    by blast
  from ih obtain evs where evs: "length evs = length bs" "list_all returned_once evs"
    "trace (inner (cycles up bs ?s1)) = trace (inner ?s1) @ concat evs"
    by blast
  have tr: "length (ev # evs) = length (b # bs) \<and> list_all returned_once (ev # evs) \<and>
    trace (inner (cycles up (b # bs) self)) = trace (inner self) @ concat (ev # evs)"
    using ev evs by simp
  have idl: "map conn_id (idle (inner (cycles up (b # bs) self))) = map conn_id (idle (inner self))"
    if h: "idle (inner self) \<noteq> []" "\<not> closed (last (idle (inner self)))"
      "length (idle (inner self)) \<le> minconn (inner self)" "list_all healthy (b # bs)"
  proof -
    from h have hb: "healthy b" and hbs: "list_all healthy bs" by simp_all
    from c1(6) [OF h(1,2,3) hb]
    have m: "map conn_id (idle (inner ?s1)) = map conn_id (idle (inner self))"
      and cl: "\<not> closed (last (idle (inner ?s1)))" by simp_all
    from m h(1) have ne: "idle (inner ?s1) \<noteq> []" by auto
    from m have "length (idle (inner ?s1)) = length (idle (inner self))"
      by (metis length_map)
    with h(3) c1(5) have le: "length (idle (inner ?s1)) \<le> minconn (inner ?s1)" by simp
    from ih ne cl le hbs
    have "map conn_id (idle (inner (cycles up bs ?s1))) = map conn_id (idle (inner ?s1))"
      by blast
    with m show ?thesis by simp
  qed
  from ih c1(1,2) have
    "active_connections (stats (cycles up (b # bs) self)) = active_connections (stats self)"
    "used (inner (cycles up (b # bs) self)) = used (inner self)"
    "pool_inv (inner (cycles up (b # bs) self))"
    by simp_all
  with tr idl show ?case by blast
qed

text \<open>
  C5. Scoped acquisition releases on every exit path. Starting from a well-formed pool,
  after any number of \<open>with get_connection()\<close> cycles, whatever each block does (return,
  raise, close or break its connection) and whether or not the server accepts new
  connections: \<open>active_connections\<close> is back at its value, the set of checked-out
  connections is what it was, every connection the pool handed out during a cycle was
  taken back exactly once in that cycle, and when the blocks leave their connection usable
  the idle connections are the same ones as before.
\<close>

theorem scoped_acquisition_no_leak:
  assumes "pool_inv (inner self)"
  shows "active_connections (stats (cycles up bs self)) = active_connections (stats self) \<and>
    used (inner (cycles up bs self)) = used (inner self) \<and>
    (\<exists>evs. length evs = length bs \<and> list_all returned_once evs \<and>
       trace (inner (cycles up bs self)) = trace (inner self) @ concat evs) \<and>
    (idle (inner self) \<noteq> [] \<and> \<not> closed (last (idle (inner self))) \<and>
     length (idle (inner self)) \<le> minconn (inner self) \<and> list_all healthy bs \<longrightarrow>
       map conn_id (idle (inner (cycles up bs self))) = map conn_id (idle (inner self)))"
  using cycles_inv [OF assms, of up bs] by blast


lemmas pool_eval = get_connection_def getconn_def putconn_def keep_idle_def keyed_def release_def
  yield_conn_def fail_before_yield_def on_except_def count_active_def count_exhausted_def
  after_block_def fresh_pool_def exhausted_pool_def conn0_def zero_stats_def
  block_ok_def block_raises_def block_breaks_def

theorem scoped_acquisition_no_leak_witness:
  "pool_inv (inner fresh_pool) \<and> list_all healthy [block_ok, block_raises] \<and>
   active_connections (stats (cycles True [block_ok, block_raises] fresh_pool)) = 0 \<and>
   used (inner (cycles True [block_ok, block_raises] fresh_pool)) = [] \<and>
   trace (inner (cycles True [block_ok, block_raises] fresh_pool)) =
     [Checkout 0, Return 0, Checkout 0, Return 0] \<and>
   map conn_id (idle (inner (cycles True [block_ok, block_raises] fresh_pool))) = [0]"
proof -
  have h: "pool_inv (inner fresh_pool)"
    by (simp add: pool_inv_def fresh_pool_def conn0_def)
  have hb: "list_all healthy [block_ok, block_raises]"
    by (simp add: healthy_def block_ok_def block_raises_def)
  note t = scoped_acquisition_no_leak [OF h, of True "[block_ok, block_raises]"]
  from t have "active_connections (stats (cycles True [block_ok, block_raises] fresh_pool)) =
      active_connections (stats fresh_pool)"
    and "used (inner (cycles True [block_ok, block_raises] fresh_pool)) = used (inner fresh_pool)"
    by blast+
  then have a: "active_connections (stats (cycles True [block_ok, block_raises] fresh_pool)) = 0"
    and u: "used (inner (cycles True [block_ok, block_raises] fresh_pool)) = []"
    by (simp_all add: fresh_pool_def zero_stats_def)
  have "idle (inner fresh_pool) \<noteq> [] \<and> \<not> closed (last (idle (inner fresh_pool))) \<and>
     length (idle (inner fresh_pool)) \<le> minconn (inner fresh_pool)"
    by (simp add: fresh_pool_def conn0_def)
  with t hb have "map conn_id (idle (inner (cycles True [block_ok, block_raises] fresh_pool))) =
      map conn_id (idle (inner fresh_pool))"
    by blast
  then have i: "map conn_id (idle (inner (cycles True [block_ok, block_raises] fresh_pool))) = [0]"
    by (simp add: fresh_pool_def conn0_def)
  have tr: "trace (inner (cycles True [block_ok, block_raises] fresh_pool)) =
     [Checkout 0, Return 0, Checkout 0, Return 0]"
    by (simp add: pool_eval)
  from h hb a u tr i show ?thesis by blast
qed

text \<open>
  A block that breaks its connection: the broken connection is discarded, the next
  cycle establishes a new one, and the counters are back where they were.
\<close>

lemma broken_connection_cycle:
  "cycles True [block_breaks, block_ok] fresh_pool =
    \<lparr>inner = \<lparr>minconn = 1, maxconn = 2,
              idle = [\<lparr>conn_id = 1, closed = False, txn = TxIdle\<rparr>], used = [],
              pool_closed = False, next_id = 2,
              trace = [Checkout 0, Return 0, Checkout 1, Return 1]\<rparr>,
     stats = \<lparr>total_connections = 0, active_connections = 0, failed_connections = 1,
              pool_exhausted = 0\<rparr>\<rparr>"
  by (simp add: pool_eval)

text \<open>
  C8. Acquiring from an exhausted pool (nothing idle, \<open>maxconn\<close> connections checked out)
  fails at once with the driver's \<open>PoolError\<close>; it is counted in \<open>failed_connections\<close>, as
  any connection failure is, and \<open>pool_exhausted\<close> stays at zero.
\<close>

theorem exhausted_acquire_not_counted:
  "get_connection up body exhausted_pool =
     (Inl (PoolError ''connection pool exhausted''),
      exhausted_pool\<lparr>stats := (stats exhausted_pool)\<lparr>failed_connections := 1\<rparr>\<rparr>) \<and>
   pool_exhausted (stats (snd (get_connection up body exhausted_pool))) = 0"
  by (simp add: pool_eval)

section \<open>The example stores, evaluated\<close>

lemmas schema_eval = ensure_schema_def users_step_def images_step_def statistics_step_def
  user_email_step_def expiration_date_step_def create_table_users_def create_table_images_def
  create_table_statistics_def ensure_admin_user_def create_admin_def sql_table_exists_def sql_column_exists_def
  sql_create_users_def sql_create_images_def sql_create_statistics_def sql_add_user_email_def
  sql_add_user_email_fk_def sql_add_expiration_date_def execute_def bind_def lookup_table_def
  fk_target_ok_def has_column_def owners_ok_def

lemma the_world_fields [simp]:
  "db (the_world d) = d" "reachable (the_world d)" "alive (the_world d)"
  "env_create_admin_user (the_world d) = None"
  "now (the_world d) = 63000000000000000" "db_now (the_world d) = 63000000000000000"
  "env_admin_email (the_world d) = None" "env_admin_emails (the_world d) = None"
  "env_admin_password (the_world d) = None"
  by (simp_all add: the_world_def)

lemma fresh_db_value:
  "fresh_db = empty_db\<lparr>users_def := Some users_table, images_def := Some images_table,
     statistics_def := Some statistics_table,
     journal := [CreateTableUsers, CreateTableImages, CreateTableStatistics]\<rparr>"
  by (simp add: fresh_db_def schema_eval empty_db_def users_table_def images_user_fk_def py_def)

lemma stats_db_fields [simp]:
  "statistics_def stats_db = Some statistics_table"
  "statistics stats_db = [stat 1 ''upload'' (Some ''a@x.com'') 10, stat 2 ''download'' None 20,
                      stat 3 ''upload'' (Some ''b@x.com'') 30]"
  by (simp_all add: stats_db_def fresh_db_value)

lemma stats_db_relation [simp]:
  "relation (Some statistics_table) statistics_columns = Inr statistics_table"
  by (simp add: relation_def statistics_columns_def statistics_table_def has_column_def)


section \<open>Properties of argument binding\<close>

lemma conversions_skip: "c \<noteq> CHR ''%'' \<Longrightarrow> conversions (c # cs) = conversions cs"
  by (cases cs) simp_all

lemma conversions_take: "d \<noteq> CHR ''%'' \<Longrightarrow> conversions (CHR ''%'' # d # cs) = d # conversions cs"
  by simp

lemmas conv = conversions.simps(1) conversions_skip conversions_take

lemma conversions_plain: "CHR ''%'' \<notin> set a \<Longrightarrow> conversions (a @ b) = conversions b"
proof (induction a)
  case Nil
  then show ?case by simp
next
  case (Cons c a)
  then have "c \<noteq> CHR ''%''" and "CHR ''%'' \<notin> set a" by auto
  with Cons.IH show ?case by (simp add: conversions_skip del: conversions.simps(2,3))
qed

lemma conversions_placeholders:
  "conversions (join '','' (replicate n ''%s'') @ CHR '')'' # rest) =
     replicate n CHR ''s'' @ conversions rest"
proof (induction n rule: less_induct)
  case (less n)
  show ?case
  proof (cases n)
    case 0
    then show ?thesis by (simp add: conversions_skip)
  next
    case (Suc m)
    show ?thesis
    proof (cases m)
      case 0
      with Suc show ?thesis by (simp add: conv del: conversions.simps(2,3))
    next
      case (Suc k)
      with \<open>n = Suc m\<close> less.IH [of m] show ?thesis
        by (simp add: conv del: conversions.simps(2,3))
    qed
  qed
qed

lemma conversions_cond:
  "c \<noteq> UserActive \<Longrightarrow>
   conversions (cond_sql c @ rest) = replicate (cond_arity c) CHR ''s'' @ conversions rest"
proof (cases c)
  case (UserIn n)
  have "conversions (''user_email IN ('' @ join '','' (replicate n ''%s'') @ '')'' @ rest) =
      conversions (join '','' (replicate n ''%s'') @ CHR '')'' # rest)"
    by (simp add: conv del: conversions.simps(2,3))
  with UserIn show ?thesis by (simp add: conversions_placeholders)
qed (simp_all add: conv del: conversions.simps(2,3))

lemma conversions_join:
  "UserActive \<notin> set (c # cs) \<Longrightarrow>
   conversions (join '' AND '' (map cond_sql (c # cs)) @ rest) =
     replicate (sum_list (map cond_arity (c # cs))) CHR ''s'' @ conversions rest"
proof (induction cs arbitrary: c)
  case Nil
  then show ?case by (simp add: conversions_cond)
next
  case (Cons d ds)
  from Cons.prems have c: "c \<noteq> UserActive" and d: "UserActive \<notin> set (d # ds)" by auto
  have "conversions (join '' AND '' (map cond_sql (c # d # ds)) @ rest) =
     conversions (cond_sql c @ '' AND '' @ join '' AND '' (map cond_sql (d # ds)) @ rest)"
    by simp
  also have "\<dots> = replicate (cond_arity c) CHR ''s'' @
      conversions ('' AND '' @ join '' AND '' (map cond_sql (d # ds)) @ rest)"
    using c by (rule conversions_cond)
  also have "conversions ('' AND '' @ join '' AND '' (map cond_sql (d # ds)) @ rest) =
      conversions (join '' AND '' (map cond_sql (d # ds)) @ rest)"
    by (rule conversions_plain) simp
  also note Cons.IH [OF d]
  finally show ?case by (simp add: replicate_add)
qed

lemma conversions_where:
  "UserActive \<notin> set conds \<Longrightarrow>
   conversions (where_clause conds @ rest) =
     replicate (sum_list (map cond_arity conds)) CHR ''s'' @ conversions rest"
proof (cases conds)
  case Nil
  then show ?thesis by (simp add: where_clause_def)
next
  case (Cons c cs)
  assume "UserActive \<notin> set conds"
  with Cons have a: "UserActive \<notin> set (c # cs)" by simp
  have "conversions (where_clause conds @ rest) =
      conversions ('' WHERE '' @ join '' AND '' (map cond_sql (c # cs)) @ rest)"
    using Cons by (simp add: where_clause_def)
  also have "\<dots> = conversions (join '' AND '' (map cond_sql (c # cs)) @ rest)"
    by (rule conversions_plain) simp
  also note conversions_join [OF a]
  finally show ?thesis using Cons by simp
qed


subsection \<open>The statistics queries bind\<close>

lemma filter_arity:
  "sum_list (map cond_arity (fst (filter_conditions a u))) = length (snd (filter_conditions a u))"
  by (simp add: filter_conditions_def user_conditions_def split: option.splits)

lemma filter_no_active:
  "u \<noteq> Some (py ''ACTIVE_USERS'') \<Longrightarrow> UserActive \<notin> set (fst (filter_conditions a u))"
  by (simp add: filter_conditions_def user_conditions_def split: option.splits)

lemma bind_statistics_count:
  assumes "u \<noteq> Some (py ''ACTIVE_USERS'')"
  shows "bind (sql_text (CountStatistics a u)) (sql_args (CountStatistics a u)) = Inr ()"
proof -
  have "conversions (''SELECT COUNT(*) FROM statistics'' @ where_clause (fst (filter_conditions a u)) @ []) =
      conversions (where_clause (fst (filter_conditions a u)) @ [])"
    by (rule conversions_plain) simp
  also have "\<dots> = replicate (length (snd (filter_conditions a u))) CHR ''s'' @ conversions []"
    using conversions_where [OF filter_no_active [OF assms], of a "[]"] filter_arity [of a u]
    by simp
  finally have "conversions (sql_text (CountStatistics a u)) =
      replicate (length (snd (filter_conditions a u))) CHR ''s''"
    by simp
  then show ?thesis by (simp add: bind_def list_ex_iff)
qed

lemma bind_statistics_select:
  assumes "u \<noteq> Some (py ''ACTIVE_USERS'')"
  shows "bind (sql_text (SelectStatistics a u l off)) (sql_args (SelectStatistics a u l off)) = Inr ()"
proof -
  have "conversions (''SELECT action_type, user_email, ip_address, timestamp, additional_info FROM statistics'' @
        where_clause (fst (filter_conditions a u)) @ '' ORDER BY timestamp DESC LIMIT %s OFFSET %s'') =
      conversions (where_clause (fst (filter_conditions a u)) @ '' ORDER BY timestamp DESC LIMIT %s OFFSET %s'')"
    by (rule conversions_plain) simp
  also have "\<dots> = replicate (length (snd (filter_conditions a u))) CHR ''s'' @
      conversions '' ORDER BY timestamp DESC LIMIT %s OFFSET %s''"
    using conversions_where [OF filter_no_active [OF assms],
        of a "'' ORDER BY timestamp DESC LIMIT %s OFFSET %s''"] filter_arity [of a u]
    by simp
  also have "conversions '' ORDER BY timestamp DESC LIMIT %s OFFSET %s'' = ''ss''"
    by (simp add: conv del: conversions.simps(2,3))
  finally have "conversions (sql_text (SelectStatistics a u l off)) =
      replicate (length (snd (filter_conditions a u))) CHR ''s'' @ ''ss''"
    by simp
  then show ?thesis by (simp add: bind_def list_ex_iff)
qed

text \<open>With \<open>ACTIVE_USERS\<close> the text holds single percent signs that are no placeholders:
  the arguments never suffice.\<close>

lemma bind_active_users:
  "bind (sql_text (CountStatistics a (Some (py ''ACTIVE_USERS''))))
        (sql_args (CountStatistics a (Some (py ''ACTIVE_USERS'')))) = Inl IndexError"
  "bind (sql_text (SelectStatistics a (Some (py ''ACTIVE_USERS'')) l off))
        (sql_args (SelectStatistics a (Some (py ''ACTIVE_USERS'')) l off)) = Inl IndexError"
  by (simp_all add: bind_def filter_conditions_def user_conditions_def where_clause_def
      py_def guest_def quote_def opt_str_def conv del: conversions.simps(2,3))

section \<open>Properties of the statistics filters\<close>






text \<open>The \<open>ACTIVE_USERS\<close> filter: the query never binds, so the count is zero and the
  list is empty, whatever the store holds.\<close>

lemma active_users_selects_nothing:
  "get_statistics_count w action_type (Some (py ''ACTIVE_USERS'')) = 0"
  "get_statistics_with_filters w action_type (Some (py ''ACTIVE_USERS'')) limit offset = []"
  using bind_active_users(1) [of action_type] bind_active_users(2) [of action_type limit offset]
  by (simp_all add: get_statistics_count_def statistics_count_def
      get_statistics_with_filters_def statistics_select_def execute_def
      del: sql_text.simps sql_args.simps)




lemma stat_fields [simp]:
  "stat_user_email (stat i a u t) = map_option py u"
  "stat_action_type (stat i a u t) = py a"
  "stat_timestamp (stat i a u t) = t"
  by (simp_all add: stat_def)




section \<open>Properties of register_user and save_image\<close>

text \<open>The statements with a fixed text bind: they fail only when the server is gone.\<close>

lemma execute_fixed [simp]:
  "execute w (SelectUser e) run = (if alive w then run else Inl OperationalError)"
  "execute w (InsertUser e h) run = (if alive w then run else Inl OperationalError)"
  "execute w (InsertAdmin e h) run = (if alive w then run else Inl OperationalError)"
  "execute w (DeleteUser e) run = (if alive w then run else Inl OperationalError)"
  "execute w (InsertImage f1 f2 f3 f4 f5 f6 f7) run = (if alive w then run else Inl OperationalError)"
  "execute w (SelectImage i) run = (if alive w then run else Inl OperationalError)"
  "execute w (DeleteImage i) run = (if alive w then run else Inl OperationalError)"
  "execute w (SelectUserImages e pp off) run = (if alive w then run else Inl OperationalError)"
  "execute w (SelectExpiredImages t) run = (if alive w then run else Inl OperationalError)"
  "execute w (InsertStatistics s1 s2 s3 s4 s5 s6) run = (if alive w then run else Inl OperationalError)"
  "execute w (SelectImagesPage p pp s) run = (if alive w then run else Inl OperationalError)"
  "execute w CountImages run = (if alive w then run else Inl OperationalError)"
  by (simp_all add: execute_def bind_def)

lemma select_user_value:
  assumes "alive w" and "relation (users_def d) [''email'', ''password_hash''] = Inr t"
  shows "sql_select_user w d e = Inr (filter (\<lambda>r. usr_email r = e) (users d))"
proof -
  from assms(2) have "relation (users_def d) [''email''] = Inr t"
    by (auto simp: relation_def split: option.splits if_splits)
  with assms(1) show ?thesis by (simp add: sql_select_user_def)
qed

lemma filter_email_empty: "(filter (\<lambda>r. usr_email r = e) us = []) = (e \<notin> set (map usr_email us))"
  by (induction us) auto

lemma register_fresh:
  assumes "reachable w" and "alive w" and "email \<notin> set (admin_emails w)"
    and "relation (users_def (db w)) [''email'', ''password_hash''] = Inr t"
    and "\<not> user_exists (db w) email"
  shows "register_user w email password =
    (Inr (True, Registered),
     (db w)\<lparr>users := users (db w) @
        [\<lparr>usr_email = email, usr_password_hash = digest w password,
          usr_created_at = (if has_column t ''created_at'' then Some (db_now w) else None)\<rparr>],
       journal := journal (db w) @ [InsertUser email (digest w password)]\<rparr>)"
proof -
  from assms(5) have "filter (\<lambda>r. usr_email r = email) (users (db w)) = []"
    by (simp add: filter_email_empty user_exists_def)
  with assms select_user_value [OF assms(2,4), of email] show ?thesis
    by (simp add: register_user_def register_in_store_def sql_insert_user_def
        insert_user_row_def)
qed




lemma fresh_db_fields [simp]:
  "users_def fresh_db = Some users_table" "images_def fresh_db = Some images_table"
  "statistics_def fresh_db = Some statistics_table" "users fresh_db = []" "images fresh_db = []"
  "statistics fresh_db = []" "images_seq fresh_db = 1"
  by (simp_all add: fresh_db_value empty_db_def)

lemma users_relation [simp]:
  "relation (Some users_table) [''email'', ''password_hash''] = Inr users_table"
  by (simp add: relation_def users_table_def has_column_def)

lemma default_admins [simp]: "admin_emails (the_world d) = [py ''admin@example.com'']"
  by (simp add: admin_emails_def comma_list_def strip_def is_space_def py_def)


text \<open>
  C7 (as amended). When \<open>save_image\<close> reports success, the store holds one more image row
  with the values it was given; for an owner that is a non-empty email its
  expiration date is the clock reading of the call (\<open>datetime.now()\<close>) plus the given
  number of days, and without an owner it is absent. The upload time handed in is stored
  but plays no part in the expiration date.
\<close>

theorem save_image_expiration:
  assumes "fst (save_image w filename original_name size' upload_time file_type user_email
                  storage_days) = Inr True"
  shows "images (snd (save_image w filename original_name size' upload_time file_type
                        user_email storage_days)) =
    images (db w) @
      [\<lparr>image_id = images_seq (db w), image_filename = filename,
        image_original_name = original_name, image_size = size',
        image_upload_time = Some upload_time, image_file_type = file_type,
        image_user_email = user_email,
        image_expiration_date =
          (if truthy user_email then Some (now w + storage_days * 86400000000) else None)\<rparr>]"
  using assms
  by (auto simp: save_image_def sql_insert_image_def add_days_def
      split: if_splits sum.splits)

lemma alice_db_value:
  "alice_db = fresh_db
     \<lparr>users := [\<lparr>usr_email = alice, usr_password_hash = py ''sha256:'' @ py ''pw1'',
                  usr_created_at = Some 63000000000000000\<rparr>],
      journal := journal fresh_db @ [InsertUser alice (py ''sha256:'' @ py ''pw1'')]\<rparr>"
proof -
  let ?w = "the_world fresh_db"
  have h1: "reachable ?w" and h2: "alive ?w" by simp_all
  have h3: "alice \<notin> set (admin_emails ?w)" by (simp add: alice_def py_def)
  have h4: "relation (users_def (db ?w)) [''email'', ''password_hash''] = Inr users_table" by simp
  have h5: "\<not> user_exists (db ?w) alice" by (simp add: user_exists_def)
  show ?thesis
    unfolding alice_db_def register_fresh [OF h1 h2 h3 h4 h5]
    by (simp add: the_world_def users_table_def has_column_def)
qed

lemma alice_db_fields [simp]:
  "images_def alice_db = Some images_table" "images alice_db = []" "images_seq alice_db = 1"
  "user_exists alice_db alice"
  by (simp_all add: alice_db_value user_exists_def)

lemma images_relation [simp]:
  "relation (Some images_table)
     [''filename'', ''original_name'', ''size'', ''upload_time'', ''file_type'', ''user_email'',
      ''expiration_date''] = Inr images_table"
  by (simp add: relation_def images_table_def has_column_def)

lemma alice_nonempty [simp]: "alice \<noteq> []"
  by (simp add: alice_def py_def)

lemma images_fk [simp]: "fk_actions (Some images_table) ''user_email'' ''users'' = [Cascade]"
  by (simp add: fk_actions_def images_table_def images_user_fk_def)

lemma save_for_alice:
  "save_image (the_world alice_db) (py ''f.png'') (py ''cat.png'') 2048 upload_at (py ''png'')
     (Some alice) 30 =
   (Inr True,
    alice_db\<lparr>images :=
        [\<lparr>image_id = 1, image_filename = py ''f.png'', image_original_name = py ''cat.png'',
          image_size = 2048, image_upload_time = Some upload_at, image_file_type = py ''png'',
          image_user_email = Some alice,
          image_expiration_date = Some (63000000000000000 + 30 * 86400000000)\<rparr>],
      images_seq := 2,
      journal := journal alice_db @
        [InsertImage (py ''f.png'') (py ''cat.png'') 2048 upload_at (py ''png'') (Some alice)
           (Some (63000000000000000 + 30 * 86400000000))]\<rparr>)"
  by (simp add: save_image_def sql_insert_image_def add_days_def max_datetime_def truthy_def
      int4_def)

theorem save_image_expiration_witness:
  "fst (save_image (the_world alice_db) (py ''f.png'') (py ''cat.png'') 2048 upload_at (py ''png'')
          (Some alice) 30) = Inr True \<and>
   map image_expiration_date
     (images (snd (save_image (the_world alice_db) (py ''f.png'') (py ''cat.png'') 2048 upload_at
                     (py ''png'') (Some alice) 30))) =
     [Some (63000000000000000 + 30 * 86400000000)]"
proof -
  have h: "fst (save_image (the_world alice_db) (py ''f.png'') (py ''cat.png'') 2048 upload_at
          (py ''png'') (Some alice) 30) = Inr True"
    by (simp add: save_for_alice)
  from save_image_expiration [OF h] h show ?thesis
    by (simp add: truthy_def)
qed

text \<open>
  C7 as stated fails when the upload time handed in is not the moment of the call: here
  the call comes one second after the upload time, and the expiration date is not the
  upload time plus thirty days.
\<close>

theorem save_image_expiration_counterexample:
  "map image_upload_time
     (images (snd (save_image (the_world alice_db) (py ''f.png'') (py ''cat.png'') 2048 upload_at
                     (py ''png'') (Some alice) 30))) = [Some upload_at] \<and>
   map image_expiration_date
     (images (snd (save_image (the_world alice_db) (py ''f.png'') (py ''cat.png'') 2048 upload_at
                     (py ''png'') (Some alice) 30))) \<noteq> [Some (upload_at + 30 * 86400000000)]"
  unfolding save_for_alice by (simp add: upload_at_def)

section \<open>Failures at the data-access layer\<close>

text \<open>Without a connection every function gives its default.\<close>

lemma no_connection_defaults:
  assumes "\<not> reachable w"
  shows "get_images_list w page per_page sort_by = Inr []"
    and "get_total_images w = Inr 0"
    and "get_image_by_id w i = Inr None"
    and "get_user_images w email page per_page = Inr []"
    and "get_expired_images w = Inr []"
    and "save_image w filename original_name size' upload_time file_type owner days =
           (Inr False, db w)"
    and "delete_image w i = (Inr False, db w)"
    and "get_statistics_with_filters w action_type user_email limit offset = []"
    and "get_statistics_count w action_type user_email = 0"
    and "log_statistics w action who file_id ip agent info = (False, db w)"
  using assms
  by (simp_all add: get_images_list_def get_total_images_def get_image_by_id_def
      get_user_images_def get_expired_images_def save_image_def delete_image_def
      get_statistics_with_filters_def statistics_select_def get_statistics_count_def
      statistics_count_def log_statistics_def)

text \<open>With a connection to a server that no longer answers, the statement raises: the
  functions of db.py let the exception pass, those of admin_db.py catch it.\<close>

lemma execute_dead: "\<not> alive w \<Longrightarrow> execute w r run = Inl OperationalError"
  by (simp add: execute_def)

lemma dead_server_db:
  assumes "reachable w" and "\<not> alive w"
  shows "get_images_list w page per_page sort_by = Inl OperationalError"
    and "get_total_images w = Inl OperationalError"
    and "get_image_by_id w i = Inl OperationalError"
    and "get_user_images w email page per_page = Inl OperationalError"
    and "get_expired_images w = Inl OperationalError"
    and "delete_image w i = (Inl OperationalError, db w)"
  using assms
  by (simp_all add: get_images_list_def get_total_images_def get_image_by_id_def
      get_user_images_def get_expired_images_def delete_image_def execute_dead)

lemma dead_server_save:
  assumes "reachable w" and "\<not> alive w"
  shows "isl (fst (save_image w filename original_name size' upload_time file_type owner days))"
    and "snd (save_image w filename original_name size' upload_time file_type owner days) = db w"
  using assms
  by (auto simp: save_image_def sql_insert_image_def execute_dead split: sum.splits)

lemma dead_server_admin:
  assumes "\<not> alive w"
  shows "get_statistics_with_filters w action_type user_email limit offset = []"
    and "get_statistics_count w action_type user_email = 0"
    and "log_statistics w action who file_id ip agent info = (False, db w)"
  using assms
  by (auto simp: get_statistics_with_filters_def statistics_select_def get_statistics_count_def
      statistics_count_def log_statistics_def checked_owner_def sql_select_user_def
      sql_insert_statistics_def execute_dead split: option.splits sum.splits list.splits)

text \<open>Whatever the statistics queries raise ends in the default.\<close>

lemma admin_catches:
  "statistics_select w action_type user_email limit offset = Inl e \<Longrightarrow>
     get_statistics_with_filters w action_type user_email limit offset = []"
  "statistics_count w action_type user_email = Inl e \<Longrightarrow>
     get_statistics_count w action_type user_email = 0"
  by (simp_all add: get_statistics_with_filters_def get_statistics_count_def)

text \<open>
  C1 (as amended). Without a connection each of the ten functions gives its default:
  the empty list, zero, None, or False with the store unchanged. When a statement raises,
  the functions of admin_db.py (\<open>get_statistics_with_filters\<close>, \<open>get_statistics_count\<close>,
  \<open>log_statistics\<close>) catch the exception and give the empty list, zero or False; the
  functions of db.py have no handler and the exception leaves them: with a connection to
  a server that no longer answers, the five reads and \<open>delete_image\<close> end in the
  store's \<open>OperationalError\<close>, and \<open>save_image\<close> in an exception.
\<close>

theorem failures_at_data_access:
  "(\<not> reachable w \<longrightarrow>
      get_images_list w page per_page sort_by = Inr [] \<and>
      get_total_images w = Inr 0 \<and>
      get_image_by_id w i = Inr None \<and>
      get_user_images w email page per_page = Inr [] \<and>
      get_expired_images w = Inr [] \<and>
      save_image w filename original_name size' upload_time file_type owner days =
        (Inr False, db w) \<and>
      delete_image w i = (Inr False, db w) \<and>
      get_statistics_with_filters w action_type user_email limit offset = [] \<and>
      get_statistics_count w action_type user_email = 0 \<and>
      log_statistics w action who file_id ip agent info = (False, db w)) \<and>
   (reachable w \<and> \<not> alive w \<longrightarrow>
      get_images_list w page per_page sort_by = Inl OperationalError \<and>
      get_total_images w = Inl OperationalError \<and>
      get_image_by_id w i = Inl OperationalError \<and>
      get_user_images w email page per_page = Inl OperationalError \<and>
      get_expired_images w = Inl OperationalError \<and>
      isl (fst (save_image w filename original_name size' upload_time file_type owner days)) \<and>
      delete_image w i = (Inl OperationalError, db w)) \<and>
   (\<not> alive w \<longrightarrow>
      get_statistics_with_filters w action_type user_email limit offset = [] \<and>
      get_statistics_count w action_type user_email = 0 \<and>
      log_statistics w action who file_id ip agent info = (False, db w)) \<and>
   (statistics_select w action_type user_email limit offset = Inl e \<longrightarrow>
      get_statistics_with_filters w action_type user_email limit offset = []) \<and>
   (statistics_count w action_type user_email = Inl e' \<longrightarrow>
      get_statistics_count w action_type user_email = 0)"
proof -
  have a: "\<not> reachable w \<longrightarrow>
      get_images_list w page per_page sort_by = Inr [] \<and>
      get_total_images w = Inr 0 \<and>
      get_image_by_id w i = Inr None \<and>
      get_user_images w email page per_page = Inr [] \<and>
      get_expired_images w = Inr [] \<and>
      save_image w filename original_name size' upload_time file_type owner days =
        (Inr False, db w) \<and>
      delete_image w i = (Inr False, db w) \<and>
      get_statistics_with_filters w action_type user_email limit offset = [] \<and>
      get_statistics_count w action_type user_email = 0 \<and>
      log_statistics w action who file_id ip agent info = (False, db w)"
    by (intro impI conjI no_connection_defaults)
  have b: "reachable w \<and> \<not> alive w \<longrightarrow>
      get_images_list w page per_page sort_by = Inl OperationalError \<and>
      get_total_images w = Inl OperationalError \<and>
      get_image_by_id w i = Inl OperationalError \<and>
      get_user_images w email page per_page = Inl OperationalError \<and>
      get_expired_images w = Inl OperationalError \<and>
      isl (fst (save_image w filename original_name size' upload_time file_type owner days)) \<and>
      delete_image w i = (Inl OperationalError, db w)"
    using dead_server_db [of w] dead_server_save(1) [of w] by blast
  have c: "\<not> alive w \<longrightarrow>
      get_statistics_with_filters w action_type user_email limit offset = [] \<and>
      get_statistics_count w action_type user_email = 0 \<and>
      log_statistics w action who file_id ip agent info = (False, db w)"
    using dead_server_admin [of w] by blast
  have d: "statistics_select w action_type user_email limit offset = Inl e \<longrightarrow>
      get_statistics_with_filters w action_type user_email limit offset = []"
    by (simp add: admin_catches(1))
  have f: "statistics_count w action_type user_email = Inl e' \<longrightarrow>
      get_statistics_count w action_type user_email = 0"
    by (simp add: admin_catches(2))
  from a b c d f show ?thesis by (intro conjI)
qed

theorem failures_at_data_access_witness:
  "\<not> reachable ((the_world alice_db)\<lparr>reachable := False\<rparr>) \<and>
   get_total_images ((the_world alice_db)\<lparr>reachable := False\<rparr>) = Inr 0 \<and>
   save_image ((the_world alice_db)\<lparr>reachable := False\<rparr>) (py ''f.png'') (py ''cat.png'') 2048
     upload_at (py ''png'') (Some alice) 30 = (Inr False, alice_db) \<and>
   reachable ((the_world alice_db)\<lparr>alive := False\<rparr>) \<and>
   \<not> alive ((the_world alice_db)\<lparr>alive := False\<rparr>) \<and>
   get_total_images ((the_world alice_db)\<lparr>alive := False\<rparr>) = Inl OperationalError \<and>
   delete_image ((the_world alice_db)\<lparr>alive := False\<rparr>) 1 = (Inl OperationalError, alice_db) \<and>
   get_statistics_count ((the_world alice_db)\<lparr>alive := False\<rparr>) None None = 0 \<and>
   statistics_select (the_world empty_db) None None 10 0 =
     Inl (ProgrammingError ''relation does not exist'') \<and>
   get_statistics_with_filters (the_world empty_db) None None 10 0 = [] \<and>
   statistics_count (the_world empty_db) None None =
     Inl (ProgrammingError ''relation does not exist'') \<and>
   get_statistics_count (the_world empty_db) None None = 0"
proof -
  let ?off = "(the_world alice_db)\<lparr>reachable := False\<rparr>"
  let ?dead = "(the_world alice_db)\<lparr>alive := False\<rparr>"
  have h: "\<not> reachable ?off" "reachable ?dead" "\<not> alive ?dead" "db ?off = alice_db"
    "db ?dead = alice_db"
    by simp_all
  have s: "statistics_select (the_world empty_db) None None 10 0 =
      Inl (ProgrammingError ''relation does not exist'')"
    and c: "statistics_count (the_world empty_db) None None =
      Inl (ProgrammingError ''relation does not exist'')"
    using bind_statistics_select [of None None 10 0] bind_statistics_count [of None None]
    by (simp_all add: statistics_select_def statistics_count_def execute_def relation_def
        empty_db_def)
  note t1 = failures_at_data_access [where w = ?off and filename = "py ''f.png''"
      and original_name = "py ''cat.png''" and size' = 2048 and upload_time = upload_at
      and file_type = "py ''png''" and owner = "Some alice" and days = 30]
  note t2 = failures_at_data_access [where w = ?dead and i = 1 and action_type = None
      and user_email = None]
  note t3 = failures_at_data_access [where w = "the_world empty_db" and action_type = None
      and user_email = None and limit = 10 and offset = 0
      and e = "ProgrammingError ''relation does not exist''"
      and e' = "ProgrammingError ''relation does not exist''"]
  from t1 h have a1: "get_total_images ?off = Inr 0"
    and a2: "save_image ?off (py ''f.png'') (py ''cat.png'') 2048
     upload_at (py ''png'') (Some alice) 30 = (Inr False, alice_db)"
    by simp_all
  from t2 h have b1: "get_total_images ?dead = Inl OperationalError"
    and b2: "delete_image ?dead 1 = (Inl OperationalError, alice_db)"
    and b3: "get_statistics_count ?dead None None = 0"
    by simp_all
  from t3 s c have c1: "get_statistics_with_filters (the_world empty_db) None None 10 0 = []"
    and c2: "get_statistics_count (the_world empty_db) None None = 0"
    by simp_all
  from h a1 a2 b1 b2 b3 s c c1 c2 show ?thesis by blast
qed

text \<open>
  C1 as stated fails for the functions of db.py: an exception of the store leaves them.
  Here the server no longer answers a count; a page number of zero makes a negative
  offset; and an image is saved for an owner who is no user.
\<close>

theorem failures_at_data_access_counterexample:
  "get_total_images ((the_world fresh_db)\<lparr>alive := False\<rparr>) = Inl OperationalError \<and>
   get_images_list (the_world fresh_db) 0 10 (py ''id'') =
     Inl (DataError ''OFFSET must not be negative'') \<and>
   fst (save_image (the_world fresh_db) (py ''f.png'') (py ''cat.png'') 2048 upload_at (py ''png'')
          (Some alice) 30) = Inl (IntegrityError ''foreign key violation'')"
proof -
  have a: "get_total_images ((the_world fresh_db)\<lparr>alive := False\<rparr>) = Inl OperationalError"
    by (simp add: get_total_images_def)
  have r: "relation (Some images_table) [sort_column (py ''id'')] = Inr images_table"
    by (simp add: relation_def images_table_def has_column_def sort_column_def)
  have b: "get_images_list (the_world fresh_db) 0 10 (py ''id'') =
     Inl (DataError ''OFFSET must not be negative'')"
    by (simp add: get_images_list_def r limit_offset_def)
  have c: "fst (save_image (the_world fresh_db) (py ''f.png'') (py ''cat.png'') 2048 upload_at
          (py ''png'') (Some alice) 30) = Inl (IntegrityError ''foreign key violation'')"
    by (simp add: save_image_def sql_insert_image_def add_days_def max_datetime_def truthy_def
        int4_def user_exists_def)
  from a b c show ?thesis by blast
qed

section \<open>Properties of the schema reconciler\<close>

lemma execute_plain [simp]:
  "execute w (TableExists n) run = (if alive w then run else Inl OperationalError)"
  "execute w (ColumnExists n c) run = (if alive w then run else Inl OperationalError)"
  "execute w CreateTableUsers run = (if alive w then run else Inl OperationalError)"
  "execute w CreateTableImages run = (if alive w then run else Inl OperationalError)"
  "execute w CreateTableStatistics run = (if alive w then run else Inl OperationalError)"
  "execute w AlterImagesAddUserEmail run = (if alive w then run else Inl OperationalError)"
  "execute w AlterImagesAddUserEmailFk run = (if alive w then run else Inl OperationalError)"
  "execute w AlterImagesAddExpirationDate run = (if alive w then run else Inl OperationalError)"
  by (simp_all add: execute_def bind_def)

lemmas step_defs = users_step_def images_step_def statistics_step_def
  user_email_step_def expiration_date_step_def create_table_users_def create_table_images_def
  create_table_statistics_def sql_table_exists_def sql_column_exists_def
  sql_create_users_def sql_create_images_def sql_create_statistics_def sql_add_user_email_def
  sql_add_user_email_fk_def sql_add_expiration_date_def lookup_table_def

text \<open>On a complete store the reconciler sends nothing but catalogue queries.\<close>

lemma complete_noop:
  assumes "reachable w" and "alive w" and "\<not> create_admin w" and "complete (db w)"
  shows "ensure_schema w = (True, db w)"
  using assms
  by (auto simp: ensure_schema_def complete_def step_defs ensure_admin_user_def
      split: option.splits)

lemma users_step_result:
  assumes "reachable w" and "alive w"
  shows "users_step w d =
    (None, case users_def d of
             None \<Rightarrow> d\<lparr>users_def := Some users_table, users := [],
                         journal := journal d @ [CreateTableUsers]\<rparr>
           | Some t \<Rightarrow> d)"
  using assms by (simp add: step_defs split: option.splits)

lemma user_email_step_result:
  assumes "alive w" and "images_def d = Some t" and "users_def d = Some tu"
    and "has_column tu ''email''"
    and "has_column t ''user_email'' \<or>
         fk_name fk_images_user_email \<notin> set (map fk_name (foreign_keys t))"
  shows "user_email_step w d =
    (None,
     if has_column t ''user_email'' then d
     else d\<lparr>images_def := Some (t\<lparr>columns := columns t @ [(''user_email'', ''TEXT'')],
                                   foreign_keys := foreign_keys t @ [fk_images_user_email]\<rparr>),
            images := map (\<lambda>r. r\<lparr>image_user_email := None\<rparr>) (images d),
            journal := journal d @ [AlterImagesAddUserEmail, AlterImagesAddUserEmailFk]\<rparr>)"
proof (cases "has_column t ''user_email''")
  case True
  with assms(1,2) show ?thesis
    by (simp add: user_email_step_def sql_column_exists_def lookup_table_def)
next
  case False
  with assms(5) have fresh: "fk_name fk_images_user_email \<notin> set (map fk_name (foreign_keys t))"
    by simp
  let ?d1 = "d\<lparr>images_def := Some (t\<lparr>columns := columns t @ [(''user_email'', ''TEXT'')]\<rparr>),
            images := map (\<lambda>r. r\<lparr>image_user_email := None\<rparr>) (images d),
            journal := journal d @ [AlterImagesAddUserEmail]\<rparr>"
  have a: "sql_add_user_email w d = Inr ?d1"
    using assms(1,2) False by (simp add: sql_add_user_email_def)
  have o: "owners_ok ?d1" by (simp add: owners_ok_def list_all_iff)
  have k: "fk_target_ok ?d1 fk_images_user_email"
    using assms(3,4) by (simp add: fk_target_ok_def lookup_table_def fk_images_user_email_def)
  have b: "sql_add_user_email_fk w ?d1 =
    Inr (d\<lparr>images_def := Some (t\<lparr>columns := columns t @ [(''user_email'', ''TEXT'')],
                                   foreign_keys := foreign_keys t @ [fk_images_user_email]\<rparr>),
            images := map (\<lambda>r. r\<lparr>image_user_email := None\<rparr>) (images d),
            journal := journal d @ [AlterImagesAddUserEmail, AlterImagesAddUserEmailFk]\<rparr>)"
    using assms(1) fresh o k by (simp add: sql_add_user_email_fk_def has_column_def)
  from assms(1,2) False a b show ?thesis
    by (simp add: user_email_step_def sql_column_exists_def lookup_table_def)
qed

lemma expiration_date_step_result:
  assumes "alive w" and "images_def d = Some t"
  shows "expiration_date_step w d =
    (None,
     if has_column t ''expiration_date'' then d
     else d\<lparr>images_def := Some (t\<lparr>columns := columns t @ [(''expiration_date'', ''TIMESTAMP'')]\<rparr>),
            images := map (\<lambda>r. r\<lparr>image_expiration_date := None\<rparr>) (images d),
            journal := journal d @ [AlterImagesAddExpirationDate]\<rparr>)"
  using assms
  by (simp add: expiration_date_step_def sql_column_exists_def lookup_table_def
      sql_add_expiration_date_def)

lemma images_step_result:
  assumes "reachable w" and "alive w" and "users_def d = Some tu" and "has_column tu ''email''"
    and "case images_def d of None \<Rightarrow> True
         | Some t \<Rightarrow> has_column t ''user_email'' \<or>
             fk_name fk_images_user_email \<notin> set (map fk_name (foreign_keys t))"
  shows "fst (images_step w d) = None"
    and "case images_def (snd (images_step w d)) of None \<Rightarrow> False
         | Some t \<Rightarrow> has_column t ''user_email'' \<and> has_column t ''expiration_date''"
    and "users_def (snd (images_step w d)) = users_def d"
    and "statistics_def (snd (images_step w d)) = statistics_def d"
proof -
  let ?P = "\<lambda>r. fst r = None \<and>
     (case images_def (snd r) of None \<Rightarrow> False
      | Some t \<Rightarrow> has_column t ''user_email'' \<and> has_column t ''expiration_date'') \<and>
     users_def (snd r) = users_def d \<and> statistics_def (snd r) = statistics_def d"
  have "?P (images_step w d)"
  proof (cases "images_def d")
    case None
    with assms(1-4) show ?thesis
      by (simp add: images_step_def sql_table_exists_def lookup_table_def create_table_images_def
          sql_create_images_def fk_target_ok_def images_user_fk_def images_table_def
          has_column_def)
  next
    case (Some t)
    with assms(5) have f: "has_column t ''user_email'' \<or>
             fk_name fk_images_user_email \<notin> set (map fk_name (foreign_keys t))" by simp
    note u = user_email_step_result [OF assms(2) Some assms(3,4) f]
    let ?d1 = "snd (user_email_step w d)"
    obtain t1 where t1: "images_def ?d1 = Some t1" and c1: "has_column t1 ''user_email''"
      using u Some by (cases "has_column t ''user_email''") (simp_all add: has_column_def)
    note e = expiration_date_step_result [OF assms(2) t1]
    have i: "images_step w d = expiration_date_step w ?d1"
      using assms(2) Some u by (simp add: images_step_def sql_table_exists_def lookup_table_def)
    have k: "users_def ?d1 = users_def d" "statistics_def ?d1 = statistics_def d"
      using u by (simp_all split: if_splits)
    show ?thesis
      unfolding i e using t1 c1 k by (simp add: has_column_def)
  qed
  then show "fst (images_step w d) = None"
    and "case images_def (snd (images_step w d)) of None \<Rightarrow> False
         | Some t \<Rightarrow> has_column t ''user_email'' \<and> has_column t ''expiration_date''"
    and "users_def (snd (images_step w d)) = users_def d"
    and "statistics_def (snd (images_step w d)) = statistics_def d"
    by simp_all
qed

lemma statistics_step_result:
  assumes "reachable w" and "alive w"
  shows "fst (statistics_step w d) = None"
    and "statistics_def (snd (statistics_step w d)) \<noteq> None"
    and "users_def (snd (statistics_step w d)) = users_def d"
    and "images_def (snd (statistics_step w d)) = images_def d"
  using assms
  by (cases "statistics_def d";
      simp add: statistics_step_def sql_table_exists_def lookup_table_def
        create_table_statistics_def sql_create_statistics_def)+

lemma reaches_complete:
  assumes "reachable w" and "alive w" and "\<not> create_admin w" and "valid_prior (db w)"
  shows "fst (ensure_schema w)" and "complete (snd (ensure_schema w))"
proof -
  obtain d1 where u: "users_step w (db w) = (None, d1)"
    using users_step_result [OF assms(1,2), of "db w"] by simp
  have d1: "d1 = snd (users_step w (db w))" by (simp add: u)
  note ur = users_step_result [OF assms(1,2), of "db w"]
  obtain tu where tu: "users_def d1 = Some tu" "has_column tu ''email''"
    using ur assms(4) unfolding d1
    by (cases "users_def (db w)") (simp_all add: valid_prior_def users_table_def has_column_def)
  have i1: "images_def d1 = images_def (db w)"
    using ur unfolding d1 by (cases "users_def (db w)") simp_all
  have f: "case images_def d1 of None \<Rightarrow> True
         | Some t \<Rightarrow> has_column t ''user_email'' \<or>
             fk_name fk_images_user_email \<notin> set (map fk_name (foreign_keys t))"
    using assms(4) i1 by (simp add: valid_prior_def)
  note ir = images_step_result [OF assms(1,2) tu f]
  obtain d2 where i: "images_step w d1 = (None, d2)"
    using ir(1) by (cases "images_step w d1") simp
  have d2: "d2 = snd (images_step w d1)" by (simp add: i)
  note sr = statistics_step_result [OF assms(1,2), of d2]
  obtain d3 where s: "statistics_step w d2 = (None, d3)"
    using sr(1) by (cases "statistics_step w d2") simp
  have d3: "d3 = snd (statistics_step w d2)" by (simp add: s)
  have r: "ensure_schema w = (True, d3)"
    using assms(1,3) by (simp add: ensure_schema_def ensure_admin_user_def u i s)
  show "fst (ensure_schema w)" by (simp add: r)
  have "users_def d3 \<noteq> None" using sr(3) ir(3) tu(1) unfolding d3 d2 by simp
  moreover have "statistics_def d3 \<noteq> None" using sr(2) unfolding d3 .
  moreover have "case images_def d3 of None \<Rightarrow> False
         | Some t \<Rightarrow> has_column t ''user_email'' \<and> has_column t ''expiration_date''"
    using sr(4) ir(2) unfolding d3 d2 by simp
  ultimately show "complete (snd (ensure_schema w))"
    by (simp add: r complete_def)
qed

lemma legacy_migrated_value:
  "snd (ensure_schema (the_world legacy_db)) =
     legacy_db
       \<lparr>images_def :=
          Some \<lparr>columns = columns legacy_images_table @
                    [(''user_email'', ''TEXT''), (''expiration_date'', ''TIMESTAMP'')],
                foreign_keys = [fk_images_user_email]\<rparr>,
        statistics_def := Some statistics_table,
        journal := [AlterImagesAddUserEmail, AlterImagesAddUserEmailFk,
                    AlterImagesAddExpirationDate, CreateTableStatistics]\<rparr>"
  by (simp add: schema_eval legacy_db_def empty_db_def users_table_def legacy_images_table_def
      fk_images_user_email_def py_def)

lemma example_priors:
  "valid_prior legacy_db" "valid_prior fresh_db" "complete fresh_db" "complete init_db_db"
  "\<not> create_admin (the_world d)"
  by (simp_all add: valid_prior_def complete_def fresh_db_value legacy_db_def init_db_db_def
      empty_db_def users_table_def images_table_def legacy_images_table_def has_column_def
      fk_images_user_email_def create_admin_def py_def)

text \<open>
  C3 (as amended). With a connection, a live server and the admin-creation flag unset, on
  every prior state the reconciler can work on: it reports success and leaves a complete
  store (the three tables, and in \<open>images\<close> the two columns); run again on that store it
  sends no CREATE, ALTER or INSERT and changes nothing; and a store that is complete
  already is left exactly as it is. What an existing table looks like otherwise is not
  touched, so the final schema depends on the prior state.
\<close>

theorem ensure_schema_idempotent:
  assumes "reachable w" and "alive w" and "\<not> create_admin w" and "valid_prior (db w)"
  shows "fst (ensure_schema w) \<and> complete (snd (ensure_schema w)) \<and>
    ensure_schema (again w) = (True, snd (ensure_schema w)) \<and>
    (complete (db w) \<longrightarrow> ensure_schema w = (True, db w))"
proof -
  note c = reaches_complete [OF assms]
  have "reachable (again w)" "alive (again w)" "\<not> create_admin (again w)"
    "complete (db (again w))"
    using assms(1-3) c(2) by (simp_all add: again_def create_admin_def)
  from complete_noop [OF this] have "ensure_schema (again w) = (True, snd (ensure_schema w))"
    by (simp add: again_def)
  with c complete_noop [OF assms(1-3)] show ?thesis by blast
qed

theorem ensure_schema_idempotent_witness:
  "valid_prior (db (the_world legacy_db)) \<and>
   fst (ensure_schema (the_world legacy_db)) \<and>
   complete (snd (ensure_schema (the_world legacy_db))) \<and>
   ensure_schema (again (the_world legacy_db)) = (True, snd (ensure_schema (the_world legacy_db))) \<and>
   complete (db (the_world fresh_db)) \<and>
   ensure_schema (the_world fresh_db) = (True, fresh_db)"
  using ensure_schema_idempotent [of "the_world legacy_db"]
    ensure_schema_idempotent [of "the_world fresh_db"]
  by (simp add: example_priors)

text \<open>
  C3 as stated fails: a store set up by \<open>init_db.py\<close> is complete, the reconciler leaves it
  as it is, and its \<open>statistics\<close> table (text columns, two foreign keys) is not the one
  the reconciler creates on an empty store.
\<close>

theorem ensure_schema_target_counterexample:
  "valid_prior init_db_db \<and>
   schema (snd (ensure_schema (the_world init_db_db))) \<noteq>
   schema (snd (ensure_schema (the_world empty_db)))"
  by (simp add: schema_eval schema_def valid_prior_def init_db_db_def empty_db_def users_table_def
      images_table_def images_user_fk_def statistics_table_def init_db_statistics_table_def
      fk_images_user_email_def py_def)

section \<open>Ownership: what deleting a user does to the images\<close>

text \<open>What the store does with the image rows of a deleted user, by the foreign key it has.\<close>

lemma delete_user_cascade:
  assumes "Cascade \<in> set (fk_actions (images_def d) ''user_email'' ''users'')"
    and "sql_delete_user w d e = Inr d'"
  shows "images d' = filter (\<lambda>r. image_user_email r \<noteq> Some e) (images d)"
  using assms
  by (auto simp: sql_delete_user_def execute_def bind_def delete_images_def Let_def
      split: if_splits sum.splits)

lemma delete_user_set_null:
  assumes "fk_actions (images_def d) ''user_email'' ''users'' = [SetNull]"
    and "sql_delete_user w d e = Inr d'"
  shows "images d' =
    map (\<lambda>r. if image_user_email r = Some e then r\<lparr>image_user_email := None\<rparr> else r) (images d)"
  using assms
  by (auto simp: sql_delete_user_def execute_def bind_def fk_effect_def Let_def
      split: if_splits sum.splits)

lemma uploaded_empty:
  "uploaded empty_db =
     alice_db\<lparr>images :=
        [\<lparr>image_id = 1, image_filename = py ''f.png'', image_original_name = py ''cat.png'',
          image_size = 2048, image_upload_time = Some upload_at, image_file_type = py ''png'',
          image_user_email = Some alice,
          image_expiration_date = Some (63000000000000000 + 30 * 86400000000)\<rparr>],
      images_seq := 2,
      journal := journal alice_db @
        [InsertImage (py ''f.png'') (py ''cat.png'') 2048 upload_at (py ''png'') (Some alice)
           (Some (63000000000000000 + 30 * 86400000000))]\<rparr>"
  unfolding uploaded_def Let_def fresh_db_def [symmetric] alice_db_def [symmetric] save_for_alice
  by simp

lemma legacy_migrated_fields [simp]:
  "users_def (snd (ensure_schema (the_world legacy_db))) = Some users_table"
  "images_def (snd (ensure_schema (the_world legacy_db))) = Some migrated_images_table"
  "statistics_def (snd (ensure_schema (the_world legacy_db))) = Some statistics_table"
  "users (snd (ensure_schema (the_world legacy_db))) = []"
  "images (snd (ensure_schema (the_world legacy_db))) = []"
  "statistics (snd (ensure_schema (the_world legacy_db))) = []"
  "images_seq (snd (ensure_schema (the_world legacy_db))) = 1"
  unfolding legacy_migrated_value
  by (simp_all add: legacy_db_def empty_db_def migrated_images_table_def)

lemma migrated_relation [simp]:
  "relation (Some migrated_images_table)
     [''filename'', ''original_name'', ''size'', ''upload_time'', ''file_type'', ''user_email'',
      ''expiration_date''] = Inr migrated_images_table"
  by (simp add: relation_def migrated_images_table_def legacy_images_table_def has_column_def)

lemma migrated_fk [simp]:
  "fk_actions (Some migrated_images_table) ''user_email'' ''users'' = [SetNull]"
  by (simp add: fk_actions_def migrated_images_table_def fk_images_user_email_def)

lemma the_world_digest [simp]: "digest (the_world d) s = py ''sha256:'' @ s"
  by (simp add: the_world_def)

lemma legacy_registered:
  "snd (register_user (the_world (snd (ensure_schema (the_world legacy_db)))) alice (py ''pw1'')) =
     (snd (ensure_schema (the_world legacy_db)))
       \<lparr>users := [\<lparr>usr_email = alice, usr_password_hash = py ''sha256:'' @ py ''pw1'',
                  usr_created_at = Some 63000000000000000\<rparr>],
        journal := journal (snd (ensure_schema (the_world legacy_db))) @
                     [InsertUser alice (py ''sha256:'' @ py ''pw1'')]\<rparr>"
proof -
  let ?w = "the_world (snd (ensure_schema (the_world legacy_db)))"
  have h1: "reachable ?w" and h2: "alive ?w" by simp_all
  have h3: "alice \<notin> set (admin_emails ?w)" by (simp add: alice_def py_def)
  have h4: "relation (users_def (db ?w)) [''email'', ''password_hash''] = Inr users_table"
    by simp
  have h5: "\<not> user_exists (db ?w) alice"
    by (simp add: user_exists_def)
  show ?thesis
    unfolding register_fresh [OF h1 h2 h3 h4 h5]
    by (simp add: users_table_def has_column_def)
qed

lemma uploaded_legacy:
  "images_def (uploaded legacy_db) = Some migrated_images_table"
  "images (uploaded legacy_db) =
     [\<lparr>image_id = 1, image_filename = py ''f.png'', image_original_name = py ''cat.png'',
          image_size = 2048, image_upload_time = Some upload_at, image_file_type = py ''png'',
          image_user_email = Some alice,
          image_expiration_date = Some (63000000000000000 + 30 * 86400000000)\<rparr>]"
  "users_def (uploaded legacy_db) = Some users_table"
  "statistics_def (uploaded legacy_db) = Some statistics_table"
  "statistics (uploaded legacy_db) = []"
  unfolding uploaded_def Let_def legacy_registered
  by (simp_all add: save_image_def sql_insert_image_def add_days_def max_datetime_def truthy_def
      int4_def user_exists_def)

lemma uploaded_empty_fields:
  "images_def (uploaded empty_db) = Some images_table"
  "images (uploaded empty_db) =
     [\<lparr>image_id = 1, image_filename = py ''f.png'', image_original_name = py ''cat.png'',
          image_size = 2048, image_upload_time = Some upload_at, image_file_type = py ''png'',
          image_user_email = Some alice,
          image_expiration_date = Some (63000000000000000 + 30 * 86400000000)\<rparr>]"
  "users_def (uploaded empty_db) = Some users_table"
  "statistics_def (uploaded empty_db) = Some statistics_table"
  "statistics (uploaded empty_db) = []"
  by (simp_all add: uploaded_empty alice_db_value)

lemma users_email_relation [simp]: "relation (Some users_table) [''email''] = Inr users_table"
  by (simp add: relation_def users_table_def has_column_def)

lemma statistics_no_fk [simp]: "fk_actions (Some statistics_table) c t = []"
  by (simp add: fk_actions_def statistics_table_def)

text \<open>
  C6. On a store the reconciler created from nothing, deleting a user's row deletes the
  image rows of that user. On a legacy store, whose \<open>user_email\<close> column the reconciler
  added with ALTER, the constraint is \<open>ON DELETE SET NULL\<close>: the image row of the deleted
  user stays, with no owner. So the cascade does not hold for every schema state the
  reconciler produces.
\<close>

theorem alter_path_keeps_images_of_deleted_user:
  "owners (Inr (uploaded legacy_db)) = Inr [Some alice] \<and>
   owners (owner_deleted legacy_db) = Inr [None] \<and>
   owners (Inr (uploaded empty_db)) = Inr [Some alice] \<and>
   owners (owner_deleted empty_db) = Inr []"
  by (simp add: owners_def owner_deleted_def sql_delete_user_def uploaded_legacy
      uploaded_empty_fields fk_effect_def delete_images_def)

section \<open>Query texts and user-supplied values\<close>

lemma conditions_by_form:
  assumes "truthy a = truthy a'" and "form_of u = form_of u'"
  shows "fst (filter_conditions a u) = fst (filter_conditions a' u')"
  using assms
  by (auto simp: filter_conditions_def user_conditions_def form_of_def
      split: option.splits if_splits)

lemma text_by_statement:
  assumes "statement_of r = statement_of r'" and "statement_of r \<noteq> ImagesPage"
  shows "sql_text r = sql_text r'"
proof (cases r)
  case (SelectStatistics a u l off)
  with assms(1) obtain a' u' l' off' where "r' = SelectStatistics a' u' l' off'"
    and "truthy a = truthy a'" and "form_of u = form_of u'"
    by (cases r'; simp only: statement_of.simps statement.distinct statement.inject; simp)
  with SelectStatistics conditions_by_form [of a a' u u'] show ?thesis by simp
next
  case (CountStatistics a u)
  with assms(1) obtain a' u' where "r' = CountStatistics a' u'"
    and "truthy a = truthy a'" and "form_of u = form_of u'"
    by (cases r'; simp only: statement_of.simps statement.distinct statement.inject; simp)
  with CountStatistics conditions_by_form [of a a' u u'] show ?thesis by simp
qed (use assms in \<open>cases r'; (simp only: statement_of.simps statement.distinct)?; simp\<close>)+

lemma args_passed:
  assumes "carries_values (statement_of r)" and "statement_of r \<noteq> ImagesPage"
  shows "sql_args r \<noteq> None"
  using assms by (cases r) simp_all

lemma sort_column_allowed:
  "sort_column s \<in> {''id'', ''filename'', ''size'', ''upload_time''}"
  by (simp add: sort_column_def)

lemma finite_forms: "finite {f. case f of ListOf m \<Rightarrow> m \<le> n | _ \<Rightarrow> True}"
proof -
  have "{f. case f of ListOf m \<Rightarrow> m \<le> n | _ \<Rightarrow> True} \<subseteq>
      {NoUser, GuestUser, ActiveUsers, ExactUser} \<union> ListOf ` {..n}"
  proof
    fix f assume "f \<in> {f. case f of ListOf m \<Rightarrow> m \<le> n | _ \<Rightarrow> True}"
    then show "f \<in> {NoUser, GuestUser, ActiveUsers, ExactUser} \<union> ListOf ` {..n}"
      by (cases f) simp_all
  qed
  then show ?thesis by (rule finite_subset) simp
qed

lemma finite_statements: "finite {k. entries k \<le> n}"
proof -
  let ?F = "{f. case f of ListOf m \<Rightarrow> m \<le> n | _ \<Rightarrow> True}"
  have "{k. entries k \<le> n} \<subseteq>
      {CatalogueTable, CatalogueColumn, CreateUsers, CreateImages, CreateStatistics,
       AddUserEmail, AddUserEmailFk, AddExpirationDate, UserByEmail, NewUser, NewAdmin,
       RemoveUser, NewImage, ImagesPage, ImagesCount, ImageById, RemoveImage, ImagesOfUser,
       ExpiredImages, NewStatistics} \<union>
      (\<lambda>(b, f). StatisticsPage b f) ` (UNIV \<times> ?F) \<union>
      (\<lambda>(b, f). StatisticsCount b f) ` (UNIV \<times> ?F)"
  proof
    fix k assume k: "k \<in> {k. entries k \<le> n}"
    show "k \<in> {CatalogueTable, CatalogueColumn, CreateUsers, CreateImages, CreateStatistics,
       AddUserEmail, AddUserEmailFk, AddExpirationDate, UserByEmail, NewUser, NewAdmin,
       RemoveUser, NewImage, ImagesPage, ImagesCount, ImageById, RemoveImage, ImagesOfUser,
       ExpiredImages, NewStatistics} \<union>
      (\<lambda>(b, f). StatisticsPage b f) ` (UNIV \<times> ?F) \<union>
      (\<lambda>(b, f). StatisticsCount b f) ` (UNIV \<times> ?F)"
    proof (cases k)
      case (StatisticsPage b f)
      with k have "f \<in> ?F" by (cases f) simp_all
      with StatisticsPage show ?thesis by (simp add: image_iff)
    next
      case (StatisticsCount b f)
      with k have "f \<in> ?F" by (cases f) simp_all
      with StatisticsCount show ?thesis by (simp add: image_iff)
    qed simp_all
  qed
  then show ?thesis
    by (rule finite_subset) (simp add: finite_forms)
qed

lemma finite_texts:
  "finite (sql_text ` {r. statement_of r \<noteq> ImagesPage \<and> entries (statement_of r) \<le> n})"
proof -
  let ?S = "{r. statement_of r \<noteq> ImagesPage \<and> entries (statement_of r) \<le> n}"
  let ?g = "\<lambda>k. sql_text (SOME r. statement_of r = k)"
  have "sql_text r = ?g (statement_of r)" if "r \<in> ?S" for r
  proof -
    have "statement_of (SOME r'. statement_of r' = statement_of r) = statement_of r"
      by (rule someI [where P = "\<lambda>r'. statement_of r' = statement_of r"]) simp
    with that show ?thesis
      using text_by_statement [where r = r and r' = "SOME r'. statement_of r' = statement_of r"]
      by simp
  qed
  then have "sql_text ` ?S \<subseteq> ?g ` {k. entries k \<le> n}" by auto
  with finite_statements [of n] show ?thesis
    by (meson finite_imageI finite_subset)
qed

text \<open>
  C2 (as amended). Apart from the page query of \<open>get_images_list\<close>, the text of every
  statement depends on nothing the caller supplied except, in the two statistics queries,
  whether an action type is given and the form of the user filter, a list counting with
  its number of entries; every statement that carries values passes an argument
  sequence; and for any bound on the number of list entries the texts are finitely many.
  In the page query the sort key reaches the text only as one of four column names.
\<close>

theorem values_are_bound:
  "(statement_of r \<noteq> ImagesPage \<and> statement_of r = statement_of r' \<longrightarrow>
      sql_text r = sql_text r') \<and>
   (statement_of r \<noteq> ImagesPage \<and> carries_values (statement_of r) \<longrightarrow> sql_args r \<noteq> None) \<and>
   finite (sql_text ` {q. statement_of q \<noteq> ImagesPage \<and> entries (statement_of q) \<le> n}) \<and>
   sort_column s \<in> {''id'', ''filename'', ''size'', ''upload_time''} \<and>
   (sort_column s = sort_column s' \<longrightarrow>
      sql_text (SelectImagesPage page per_page s) = sql_text (SelectImagesPage page per_page s'))"
  using text_by_statement [where r = r and r' = r'] args_passed [of r] finite_texts [of n]
    sort_column_allowed [of s]
  by auto

theorem values_are_bound_witness:
  "statement_of (CountStatistics (Some (py ''upload'')) (Some (py ''CUSTOM_LIST:a@x.com,b@x.com''))) =
     statement_of (CountStatistics (Some (py ''download'')) (Some (py ''CUSTOM_LIST:c@x.com, ,d@x.com''))) \<and>
   sql_text (CountStatistics (Some (py ''upload'')) (Some (py ''CUSTOM_LIST:a@x.com,b@x.com''))) =
     sql_text (CountStatistics (Some (py ''download'')) (Some (py ''CUSTOM_LIST:c@x.com, ,d@x.com''))) \<and>
   sql_args (CountStatistics (Some (py ''upload'')) (Some (py ''CUSTOM_LIST:a@x.com,b@x.com''))) =
     Some [PStr (py ''upload''), PStr (py ''a@x.com''), PStr (py ''b@x.com'')] \<and>
   sort_column (py ''name; DROP TABLE images'') = sort_column (py ''upload_time'') \<and>
   sql_text (SelectImagesPage 1 10 (py ''name; DROP TABLE images'')) =
     sql_text (SelectImagesPage 1 10 (py ''upload_time''))"
proof -
  let ?r = "CountStatistics (Some (py ''upload'')) (Some (py ''CUSTOM_LIST:a@x.com,b@x.com''))"
  let ?r' = "CountStatistics (Some (py ''download'')) (Some (py ''CUSTOM_LIST:c@x.com, ,d@x.com''))"
  have l1: "comma_list (py ''a@x.com,b@x.com'') = [py ''a@x.com'', py ''b@x.com'']"
    and l2: "comma_list (py ''c@x.com, ,d@x.com'') = [py ''c@x.com'', py ''d@x.com'']"
    by (simp_all add: comma_list_def strip_def is_space_def py_def)
  have d1: "drop 12 (py ''CUSTOM_LIST:a@x.com,b@x.com'') = py ''a@x.com,b@x.com''"
    and d2: "drop 12 (py ''CUSTOM_LIST:c@x.com, ,d@x.com'') = py ''c@x.com, ,d@x.com''"
    by (simp_all add: py_def)
  have f: "form_of (Some (py ''CUSTOM_LIST:a@x.com,b@x.com'')) = ListOf 2"
    "form_of (Some (py ''CUSTOM_LIST:c@x.com, ,d@x.com'')) = ListOf 2"
    unfolding form_of_def option.case d1 d2 l1 l2 by (simp_all add: py_def guest_def)
  have k: "statement_of ?r = statement_of ?r'"
    unfolding statement_of.simps f by (simp add: truthy_def py_def)
  have p: "statement_of ?r \<noteq> ImagesPage" "carries_values (statement_of ?r)" by simp_all
  have a: "sql_args ?r = Some [PStr (py ''upload''), PStr (py ''a@x.com''), PStr (py ''b@x.com'')]"
  proof -
    have n: "py ''CUSTOM_LIST:a@x.com,b@x.com'' \<noteq> guest"
      "py ''CUSTOM_LIST:a@x.com,b@x.com'' \<noteq> py ''ACTIVE_USERS''"
      "py ''CUSTOM_LIST:a@x.com,b@x.com'' \<noteq> []"
      "take 12 (py ''CUSTOM_LIST:a@x.com,b@x.com'') = py ''CUSTOM_LIST:''"
      "py ''upload'' \<noteq> []"
      by (simp_all add: py_def guest_def)
    show ?thesis
      by (simp add: filter_conditions_def user_conditions_def truthy_def opt_str_def d1 l1 n)
  qed
  have c: "sort_column (py ''name; DROP TABLE images'') = sort_column (py ''upload_time'')"
    by (simp add: sort_column_def py_def)
  note t = values_are_bound [where r = ?r and r' = ?r' and s = "py ''name; DROP TABLE images''"
      and s' = "py ''upload_time''" and page = 1 and per_page = 10]
  from t k p a c show ?thesis by blast
qed

text \<open>
  C2 as stated fails: the number of entries of a \<open>CUSTOM_LIST:\<close>, which the caller
  supplies, decides how many placeholders the text has; and \<open>get_images_list\<close> writes
  the sort key it was given, once validated, into the text and passes no argument.
\<close>

theorem values_are_bound_counterexample:
  "sql_text (CountStatistics None (Some (py ''CUSTOM_LIST:a''))) =
     ''SELECT COUNT(*) FROM statistics WHERE user_email IN (%s)'' \<and>
   sql_text (CountStatistics None (Some (py ''CUSTOM_LIST:a,b''))) =
     ''SELECT COUNT(*) FROM statistics WHERE user_email IN (%s,%s)'' \<and>
   sql_text (SelectImagesPage 1 10 (py ''id'')) \<noteq> sql_text (SelectImagesPage 1 10 (py ''size'')) \<and>
   sql_args (SelectImagesPage 1 10 (py ''id'')) = None"
proof -
  have l: "comma_list (py ''a'') = [py ''a'']" "comma_list (py ''a,b'') = [py ''a'', py ''b'']"
    by (simp_all add: comma_list_def strip_def is_space_def py_def)
  have d: "drop 12 (py ''CUSTOM_LIST:a'') = py ''a''" "drop 12 (py ''CUSTOM_LIST:a,b'') = py ''a,b''"
    "take 12 (py ''CUSTOM_LIST:a'') = py ''CUSTOM_LIST:''"
    "take 12 (py ''CUSTOM_LIST:a,b'') = py ''CUSTOM_LIST:''"
    by (simp_all add: py_def)
  have n: "py ''CUSTOM_LIST:a'' \<noteq> guest" "py ''CUSTOM_LIST:a,b'' \<noteq> guest"
    "py ''CUSTOM_LIST:a'' \<noteq> py ''ACTIVE_USERS''" "py ''CUSTOM_LIST:a,b'' \<noteq> py ''ACTIVE_USERS''"
    "py ''CUSTOM_LIST:a'' \<noteq> []" "py ''CUSTOM_LIST:a,b'' \<noteq> []"
    by (simp_all add: py_def guest_def)
  have c: "fst (filter_conditions None (Some (py ''CUSTOM_LIST:a''))) = [UserIn 1]"
    "fst (filter_conditions None (Some (py ''CUSTOM_LIST:a,b''))) = [UserIn 2]"
    by (simp_all add: filter_conditions_def user_conditions_def truthy_def l d n)
  have t: "sql_text (CountStatistics None (Some (py ''CUSTOM_LIST:a''))) =
     ''SELECT COUNT(*) FROM statistics WHERE user_email IN (%s)''"
    "sql_text (CountStatistics None (Some (py ''CUSTOM_LIST:a,b''))) =
     ''SELECT COUNT(*) FROM statistics WHERE user_email IN (%s,%s)''"
    unfolding sql_text.simps c by (simp_all add: where_clause_def numeral_2_eq_2)
  have s: "sort_column (py ''id'') = ''id''" "sort_column (py ''size'') = ''size''"
    by (simp_all add: sort_column_def py_def)
  have p: "sql_text (SelectImagesPage 1 10 (py ''id'')) \<noteq>
      sql_text (SelectImagesPage 1 10 (py ''size''))"
    unfolding sql_text.simps s by simp
  from t p show ?thesis by simp
qed

text \<open>The page query also carries the page size and the offset in its text, where
  \<open>get_user_images\<close> binds them.\<close>

lemma images_page_text_carries_paging:
  "sql_text (SelectImagesPage 1 10 (py ''id'')) \<noteq> sql_text (SelectImagesPage 1 20 (py ''id''))"
  "sql_text (SelectImagesPage 1 10 (py ''id'')) \<noteq> sql_text (SelectImagesPage 2 10 (py ''id''))"
  "sql_text (SelectUserImages e 10 0) = sql_text (SelectUserImages e 20 40)"
  "sql_args (SelectUserImages e 20 40) = Some [PStr e, PInt 20, PInt 40]"
  by (simp_all add: show_int_def)

end
